theory Spec2Isabelle
  imports Main "HOL-Library.Multiset"
begin

section \<open>Documents and collections\<close>

text \<open>
  The application keeps all of its data in a remote document database. A collection is
  modelled as the list of its documents, each paired with its document id. Timestamps are
  milliseconds since the epoch (\<open>Date.getTime()\<close>), counters are integers, and a field that
  may hold \<open>null\<close> is an option.
\<close>

type_synonym docId = string
type_synonym millis = int
type_synonym 'a collection = "(docId \<times> 'a) list"

text \<open>A post document, with the fields \<open>handleSubmit\<close> of the create page writes.\<close>

record post_doc =
  userId :: string
  username :: string
  displayName :: string
  "text" :: string
  imageUrl :: "string option"
  createdAt :: millis
  likeCount :: int
  commentCount :: int
  isPublic :: bool

text \<open>The \<open>Post\<close> interface of the home page: what a feed entry holds.\<close>

record Post =
  id' :: docId
  userId :: string
  username :: string
  displayName :: string
  "text" :: string
  imageUrl :: "string option"
  createdAt :: millis
  likeCount :: int
  commentCount :: int
  isLiked :: bool

text \<open>A follow edge, as \<open>handleFollow\<close> writes it.\<close>

record follow_doc =
  followerId :: string
  followingId :: string
  createdAt :: millis

text \<open>A like edge, as \<open>handleLike\<close> writes it.\<close>

record like_doc =
  postId :: docId
  userId :: string
  createdAt :: millis

text \<open>
  A user document, with the fields the sign-up handler writes that the handlers below read
  or that the properties below speak about. The cached \<open>userProfile\<close> of the session is a copy of
  this document's data.
\<close>

record user_doc =
  uid :: string
  username :: string
  displayName :: string
  isPrivate :: bool
  isVerified :: bool
  followerCount :: int
  followingCount :: int
  postCount :: int
  likeCount :: int

datatype decision = approved | rejected

datatype request_status = pending | decided decision

record request_doc =
  userId :: string
  status :: request_status
  reviewedAt :: "millis option"
  reviewedBy :: "string option"

record store =
  posts :: "post_doc collection"
  follows :: "follow_doc collection"
  likes :: "like_doc collection"
  users :: "user_doc collection"
  verificationRequests :: "request_doc collection"

section \<open>The database client\<close>

text \<open>
  The operations of the database client the handlers call. \<open>where\<close> is \<open>filter\<close> and
  \<open>limit n\<close> is \<open>take n\<close>. \<open>orderBy(field, 'desc')\<close> sorts by the field, descending; documents
  with equal keys keep their order in the collection (the real service orders them by
  document name, which none of the properties below depends on). \<open>addDoc\<close> and \<open>setDoc\<close> on
  a fresh reference store the data under an id the client generates, here the argument
  \<open>newId\<close>. \<open>updateDoc\<close> fails when the document does not exist and otherwise applies the
  field update (\<open>increment(n)\<close> adds \<open>n\<close>) to the document; \<open>deleteDoc\<close> never fails and
  removes what is stored under the id (the service keeps ids unique within a collection).
  Failures of the network or of the service's configuration are outside this model.
\<close>

datatype error = NotFound

definition orderByDesc :: "('a \<Rightarrow> int) \<Rightarrow> 'a collection \<Rightarrow> 'a collection" where
  "orderByDesc field docs = sort_key (\<lambda>d. - field (snd d)) docs"

definition addDoc :: "docId \<Rightarrow> 'a \<Rightarrow> 'a collection \<Rightarrow> 'a collection" where
  "addDoc newId data docs = docs @ [(newId, data)]"

definition applyUpdate :: "docId \<Rightarrow> ('a \<Rightarrow> 'a) \<Rightarrow> 'a collection \<Rightarrow> 'a collection" where
  "applyUpdate ref upd docs = map (\<lambda>(i, d). if i = ref then (i, upd d) else (i, d)) docs"

definition updateDoc :: "docId \<Rightarrow> ('a \<Rightarrow> 'a) \<Rightarrow> 'a collection \<Rightarrow> error + 'a collection" where
  "updateDoc ref upd docs =
     (case map_of docs ref of
        None \<Rightarrow> Inl NotFound
      | Some _ \<Rightarrow> Inr (applyUpdate ref upd docs))"

definition deleteDoc :: "docId \<Rightarrow> 'a collection \<Rightarrow> 'a collection" where
  "deleteDoc ref docs = filter (\<lambda>(i, d). i \<noteq> ref) docs"

section \<open>Home page: the feed\<close>

text \<open>
  \<open>fetchFollowing\<close> reads the ids the signed-in user follows, in the order of the query
  result; without a user it returns early and the state keeps its value.
\<close>

definition fetchFollowing :: "string option \<Rightarrow> string list \<Rightarrow> store \<Rightarrow> string list" where
  "fetchFollowing user following st =
     (case user of
        None \<Rightarrow> following
      | Some u \<Rightarrow> map (\<lambda>(i, f). followingId f) (filter (\<lambda>(i, f). followerId f = u) (follows st)))"

text \<open>
  The conversion of a query result to a \<open>Post\<close>. Every post document carries all of its
  fields, so of the defaults in the source only \<open>isLiked: data.isLiked || false\<close> applies:
  a post document has no such field.
\<close>

definition docToPost :: "docId \<times> post_doc \<Rightarrow> Post" where
  "docToPost doc =
     (let data = snd doc in
      \<lparr> id' = fst doc,
        userId = post_doc.userId data,
        username = post_doc.username data,
        displayName = post_doc.displayName data,
        text = post_doc.text data,
        imageUrl = post_doc.imageUrl data,
        createdAt = post_doc.createdAt data,
        likeCount = post_doc.likeCount data,
        commentCount = post_doc.commentCount data,
        isLiked = False \<rparr>)"

definition fetchHomeFeed :: "string list \<Rightarrow> store \<Rightarrow> Post list" where
  "fetchHomeFeed following st =
     (let postsQuery =
        (if length following > 0 then
           (let followingChunk = take 10 following in
            take 20 (orderByDesc post_doc.createdAt
              (filter (\<lambda>(i, p). post_doc.userId p \<in> set followingChunk) (posts st))))
         else
           take 10 (orderByDesc post_doc.likeCount (posts st)))
      in map docToPost postsQuery)"

section \<open>Handlers: outcomes and traces\<close>

text \<open>
  A handler is a function from the component's state and the store to a \<open>handled\<close>
  value: how the handler left (an early \<open>return\<close>, the end of its \<open>try\<close> block, or its
  \<open>catch\<close> block), the notice it showed, the remote calls it awaited in order, the
  component's new state and the new store. The clock (\<open>new Date()\<close>) and the generated
  document id are arguments.
\<close>

datatype toast = Toast string string

datatype outcome = EarlyReturn "toast option" | Completed "toast option" | Caught toast

datatype remote_call =
    GetDocs string
  | AddDoc string
  | SetDoc string
  | UpdateDoc string docId
  | DeleteDoc string docId

record 'ui handled =
  outcome :: outcome
  calls :: "remote_call list"
  ui :: 'ui
  db :: store

section \<open>Post card: likes\<close>

text \<open>
  The count a card shows is a JavaScript number, a double. Like counts are whole numbers
  (a post starts at 0 and moves by steps of 1), so the card's count is a whole-number
  double, held here as an \<open>int\<close>. The card computes \<open>prev + 1\<close> and \<open>prev - 1\<close> in doubles:
  the exact result is rounded to 53 significant bits, to the nearest double and to the one
  with the even significand on a tie. \<open>ulp m\<close> is the distance between the doubles around
  a magnitude \<open>m\<close>: 1 below \<open>2 ^ 53\<close>, and doubling with each further bit.
\<close>

function ulp :: "int \<Rightarrow> int" where
  "ulp m = (if m < 2 ^ 53 then 1 else 2 * ulp (m div 2))"
  by pat_completeness auto
termination
  by (relation "measure nat") auto

declare ulp.simps [simp del]

definition roundDouble :: "int \<Rightarrow> int" where
  "roundDouble n =
     (let m = \<bar>n\<bar>;
          u = ulp m;
          q = m div u;
          r = m mod u;
          q' = (if 2 * r < u then q
                else if u < 2 * r then q + 1
                else if even q then q else q + 1)
      in sgn n * (q' * u))"

record post_card =
  post :: Post
  liked :: bool
  likeCount :: int
  loading :: bool

text \<open>The initial state of a card: \<open>useState(post.isLiked || false)\<close>, \<open>useState(post.likeCount)\<close>.\<close>

definition PostCard :: "Post \<Rightarrow> post_card" where
  "PostCard p = \<lparr> post = p, liked = isLiked p, likeCount = Post.likeCount p, loading = False \<rparr>"

definition likeQuery :: "docId \<Rightarrow> string \<Rightarrow> store \<Rightarrow> like_doc collection" where
  "likeQuery pid u st = filter (\<lambda>(i, l). postId l = pid \<and> like_doc.userId l = u) (likes st)"

definition handleLike ::
  "string option \<Rightarrow> millis \<Rightarrow> docId \<Rightarrow> post_card \<Rightarrow> store \<Rightarrow> post_card handled" where
  "handleLike user now newId cardState st =
     (case user of
        None \<Rightarrow> \<lparr> outcome = EarlyReturn None, calls = [], ui = cardState, db = st \<rparr>
      | Some u \<Rightarrow>
          if post_card.loading cardState then
            \<lparr> outcome = EarlyReturn None, calls = [], ui = cardState, db = st \<rparr>
          else
            (let pid = id' (post cardState);
                 likeSnapshot = likeQuery pid u st
             in if liked cardState then
                  (let (deleted, st1) =
                         (case likeSnapshot of
                            [] \<Rightarrow> ([], st)
                          | d # _ \<Rightarrow> ([DeleteDoc ''likes'' (fst d)],
                                     st\<lparr>likes := deleteDoc (fst d) (likes st)\<rparr>));
                       issued = [GetDocs ''likes''] @ deleted @ [UpdateDoc ''posts'' pid]
                   in case updateDoc pid
                             (\<lambda>p. p\<lparr>post_doc.likeCount := post_doc.likeCount p + (-1)\<rparr>)
                             (posts st1) of
                        Inl e \<Rightarrow>
                          \<lparr> outcome = Caught (Toast ''Error'' ''Failed to update like''),
                            calls = issued,
                            ui = cardState\<lparr>post_card.loading := False\<rparr>,
                            db = st1 \<rparr>
                      | Inr ps \<Rightarrow>
                          \<lparr> outcome = Completed None,
                            calls = issued,
                            ui = cardState\<lparr>liked := False,
                                      post_card.likeCount :=
                                        roundDouble (post_card.likeCount cardState - 1),
                                      post_card.loading := False\<rparr>,
                            db = st1\<lparr>posts := ps\<rparr> \<rparr>)
                else
                  (let st1 = st\<lparr>likes :=
                               addDoc newId
                                 \<lparr> postId = pid, userId = u, createdAt = now \<rparr> (likes st)\<rparr>;
                       issued = [GetDocs ''likes'', AddDoc ''likes'', UpdateDoc ''posts'' pid]
                   in case updateDoc pid
                             (\<lambda>p. p\<lparr>post_doc.likeCount := post_doc.likeCount p + 1\<rparr>)
                             (posts st1) of
                        Inl e \<Rightarrow>
                          \<lparr> outcome = Caught (Toast ''Error'' ''Failed to update like''),
                            calls = issued,
                            ui = cardState\<lparr>post_card.loading := False\<rparr>,
                            db = st1 \<rparr>
                      | Inr ps \<Rightarrow>
                          \<lparr> outcome = Completed None,
                            calls = issued,
                            ui = cardState\<lparr>liked := True,
                                      post_card.likeCount :=
                                        roundDouble (post_card.likeCount cardState + 1),
                                      post_card.loading := False\<rparr>,
                            db = st1\<lparr>posts := ps\<rparr> \<rparr>)))"

text \<open>
  A card is settled when its local flag agrees with the store: the viewer's like edge for
  the cardState's post exists exactly when the cardState shows the post as liked.
\<close>

definition settled :: "string \<Rightarrow> post_card \<Rightarrow> store \<Rightarrow> bool" where
  "settled u cardState st = (liked cardState = (likeQuery (id' (post cardState)) u st \<noteq> []))"

section \<open>Create page: posting\<close>

text \<open>
  \<open>String.prototype.trim\<close> removes white space and line terminators from both ends. Of
  these, the type \<open>char\<close> holds the code points below 256: tab, line feed, vertical tab,
  form feed, carriage return, space and no-break space.
\<close>

definition isWhiteSpace :: "char \<Rightarrow> bool" where
  "isWhiteSpace c = ((of_char c :: nat) \<in> {9, 10, 11, 12, 13, 32, 160})"

definition trim :: "string \<Rightarrow> string" where
  "trim s = rev (dropWhile isWhiteSpace (rev (dropWhile isWhiteSpace s)))"

record create_page =
  "text" :: string
  imageUrl :: string
  loading :: bool

definition checkRateLimit :: "string option \<Rightarrow> millis \<Rightarrow> store \<Rightarrow> bool" where
  "checkRateLimit user now st =
     (case user of
        None \<Rightarrow> False
      | Some u \<Rightarrow>
          (let oneMinuteAgo = now - 60 * 1000;
               recentPosts =
                 take 1 (orderByDesc post_doc.createdAt
                   (filter (\<lambda>(i, p). post_doc.userId p = u \<and> post_doc.createdAt p > oneMinuteAgo)
                     (posts st)))
           in recentPosts = []))"

text \<open>
  The post data \<open>handleSubmit\<close> builds: the text and the image URL are trimmed, an empty
  image URL becomes \<open>null\<close>, both counters start at 0, and the public flag is the negation
  of the privacy flag of the session's cached profile.
\<close>

definition postData :: "string \<Rightarrow> user_doc \<Rightarrow> millis \<Rightarrow> create_page \<Rightarrow> post_doc" where
  "postData u profile now' page =
     \<lparr> post_doc.userId = u,
       username = user_doc.username profile,
       displayName = user_doc.displayName profile,
       text = trim (create_page.text page),
       imageUrl = (if trim (create_page.imageUrl page) = [] then None
                   else Some (trim (create_page.imageUrl page))),
       createdAt = now',
       likeCount = 0,
       commentCount = 0,
       isPublic = (\<not> isPrivate profile) \<rparr>"

text \<open>
  \<open>now\<close> is the clock read by \<open>checkRateLimit\<close>, \<open>now'\<close> the clock read when the post data
  is built.
\<close>

definition handleSubmit ::
  "string option \<Rightarrow> user_doc option \<Rightarrow> millis \<Rightarrow> millis \<Rightarrow> docId \<Rightarrow> create_page \<Rightarrow> store
     \<Rightarrow> create_page handled" where
  "handleSubmit user userProfile now now' newId page st =
     (if trim (create_page.text page) = [] then
        \<lparr> outcome = EarlyReturn (Some (Toast ''Error'' ''Please enter some text'')),
          calls = [], ui = page, db = st \<rparr>
      else
        (case (user, userProfile) of
           (Some u, Some profile) \<Rightarrow>
             if \<not> checkRateLimit user now st then
               \<lparr> outcome = EarlyReturn
                             (Some (Toast ''Too fast!'' ''You can only post once per minute'')),
                 calls = [GetDocs ''posts''],
                 ui = page\<lparr>create_page.loading := False\<rparr>,
                 db = st \<rparr>
             else
               (let st1 = st\<lparr>posts := addDoc newId (postData u profile now' page) (posts st)\<rparr>;
                    issued = [GetDocs ''posts'', AddDoc ''posts'', UpdateDoc ''users'' u]
                in case updateDoc u (\<lambda>d. d\<lparr>postCount := postCount d + 1\<rparr>) (users st1) of
                     Inl e \<Rightarrow>
                       \<lparr> outcome = Caught (Toast ''Error'' ''Failed to create post''),
                         calls = issued,
                         ui = page\<lparr>create_page.loading := False\<rparr>,
                         db = st1 \<rparr>
                   | Inr us \<Rightarrow>
                       \<lparr> outcome = Completed (Some (Toast ''Posted!'' ''Your post has been shared'')),
                         calls = issued,
                         ui = \<lparr> text = [], imageUrl = [], loading = False \<rparr>,
                         db = st1\<lparr>users := us\<rparr> \<rparr>)
         | _ \<Rightarrow> \<lparr> outcome = EarlyReturn None, calls = [], ui = page, db = st \<rparr>))"

section \<open>User card: follow and unfollow\<close>

record user_card =
  cardUid :: string
  cardUsername :: string
  isFollowing :: bool
  loading :: bool

definition followQuery :: "string \<Rightarrow> string \<Rightarrow> store \<Rightarrow> follow_doc collection" where
  "followQuery u target st =
     filter (\<lambda>(i, f). followerId f = u \<and> followingId f = target) (follows st)"

definition checkFollowStatus :: "string option \<Rightarrow> user_card \<Rightarrow> store \<Rightarrow> user_card" where
  "checkFollowStatus currentUser cardState st =
     (case currentUser of
        None \<Rightarrow> cardState
      | Some u \<Rightarrow> cardState\<lparr>isFollowing := (followQuery u (cardUid cardState) st \<noteq> [])\<rparr>)"

definition handleFollow ::
  "string option \<Rightarrow> millis \<Rightarrow> docId \<Rightarrow> user_card \<Rightarrow> store \<Rightarrow> user_card handled" where
  "handleFollow currentUser now newId cardState st =
     (case currentUser of
        None \<Rightarrow> \<lparr> outcome = EarlyReturn None, calls = [], ui = cardState, db = st \<rparr>
      | Some u \<Rightarrow>
          if user_card.loading cardState then
            \<lparr> outcome = EarlyReturn None, calls = [], ui = cardState, db = st \<rparr>
          else if isFollowing cardState then
            (let followSnapshot = followQuery u (cardUid cardState) st;
                 (deleted, st1) =
                   (case followSnapshot of
                      [] \<Rightarrow> ([], st)
                    | d # _ \<Rightarrow> ([DeleteDoc ''follows'' (fst d)],
                               st\<lparr>follows := deleteDoc (fst d) (follows st)\<rparr>))
             in \<lparr> outcome = Completed
                               (Some (Toast ''Unfollowed''
                                  (''You unfollowed @'' @ cardUsername cardState))),
                  calls = [GetDocs ''follows''] @ deleted,
                  ui = cardState\<lparr>isFollowing := False, user_card.loading := False\<rparr>,
                  db = st1 \<rparr>)
          else
            \<lparr> outcome = Completed
                          (Some (Toast ''Following''
                             (''You are now following @'' @ cardUsername cardState))),
              calls = [SetDoc ''follows''],
              ui = cardState\<lparr>isFollowing := True, user_card.loading := False\<rparr>,
              db = st\<lparr>follows :=
                        addDoc newId
                          \<lparr> followerId = u, followingId = cardUid cardState, createdAt = now \<rparr>
                          (follows st)\<rparr> \<rparr>)"

section \<open>Admin page: verification decisions\<close>

definition decisionText :: "decision \<Rightarrow> string" where
  "decisionText d = (case d of approved \<Rightarrow> ''approved'' | rejected \<Rightarrow> ''rejected'')"

text \<open>
  The optional argument \<open>userId\<close> (here \<open>userId'\<close>) is tested for truthiness: it counts
  as supplied when it is a non-empty string. The page's state is its list of pending requests. Without a
  signed-in user \<open>reviewedBy\<close> is \<open>undefined\<close>, which the client refuses before writing.
\<close>

definition truthy :: "string option \<Rightarrow> bool" where
  "truthy s = (case s of None \<Rightarrow> False | Some v \<Rightarrow> v \<noteq> [])"

definition handleVerificationDecision ::
  "string option \<Rightarrow> millis \<Rightarrow> docId \<Rightarrow> decision \<Rightarrow> string option
     \<Rightarrow> request_doc collection \<Rightarrow> store \<Rightarrow> request_doc collection handled" where
  "handleVerificationDecision user now requestId decision userId' page st =
     (let failed = Toast ''Error'' ''Failed to update verification request'' in
      case user of
        None \<Rightarrow> \<lparr> outcome = Caught failed, calls = [], ui = page, db = st \<rparr>
      | Some admin \<Rightarrow>
          (case updateDoc requestId
                  (\<lambda>r. r\<lparr>status := decided decision,
                          reviewedAt := Some now,
                          reviewedBy := Some admin\<rparr>)
                  (verificationRequests st) of
             Inl e \<Rightarrow>
               \<lparr> outcome = Caught failed,
                 calls = [UpdateDoc ''verificationRequests'' requestId],
                 ui = page, db = st \<rparr>
           | Inr rs \<Rightarrow>
               (let st1 = st\<lparr>verificationRequests := rs\<rparr>;
                    done = \<lparr> outcome = Completed
                                       (Some (Toast (''Verification '' @ decisionText decision)
                                          (''Request has been '' @ decisionText decision))),
                             calls = [UpdateDoc ''verificationRequests'' requestId],
                             ui = filter (\<lambda>(i, r). i \<noteq> requestId) page,
                             db = st1 \<rparr>
                in if decision = approved \<and> truthy userId' then
                     (case userId' of
                        None \<Rightarrow> done
                      | Some target \<Rightarrow>
                          (case updateDoc target (\<lambda>d. d\<lparr>isVerified := True\<rparr>) (users st1) of
                             Inl e \<Rightarrow>
                               \<lparr> outcome = Caught failed,
                                 calls = [UpdateDoc ''verificationRequests'' requestId,
                                          UpdateDoc ''users'' target],
                                 ui = page, db = st1 \<rparr>
                           | Inr us \<Rightarrow>
                               done\<lparr>calls := calls done @ [UpdateDoc ''users'' target],
                                    db := st1\<lparr>users := us\<rparr>\<rparr>))
                   else done)))"

section \<open>Example data\<close>

text \<open>
  A small store: four users, four posts, one follow edge, one like edge and one pending
  verification request. \<open>alice\<close>'s post \<open>p4\<close> was created at time 100000.
\<close>

definition examplePost :: "string \<Rightarrow> millis \<Rightarrow> int \<Rightarrow> bool \<Rightarrow> post_doc" where
  "examplePost u t n pub =
     \<lparr> post_doc.userId = u, username = u, displayName = u, text = ''hello'',
       imageUrl = None, createdAt = t, likeCount = n, commentCount = 0, isPublic = pub \<rparr>"

definition exampleUser :: "string \<Rightarrow> bool \<Rightarrow> int \<Rightarrow> user_doc" where
  "exampleUser u priv n =
     \<lparr> uid = u, username = u, displayName = u, isPrivate = priv, isVerified = False,
       followerCount = 0, followingCount = 0, postCount = n, likeCount = 0 \<rparr>"

definition exampleStore :: store where
  "exampleStore =
     \<lparr> posts = [(''p1'', examplePost ''bob'' 1000 5 True),
                (''p2'', examplePost ''carol'' 2000 7 True),
                (''p3'', examplePost ''bob'' 3000 0 True),
                (''p4'', examplePost ''alice'' 100000 2 False)],
       follows = [(''f1'', \<lparr> followerId = ''alice'', followingId = ''bob'', createdAt = 500 \<rparr>)],
       likes = [(''l1'', \<lparr> postId = ''p1'', userId = ''carol'', createdAt = 1500 \<rparr>)],
       users = [(''alice'', exampleUser ''alice'' True 1),
                (''bob'', exampleUser ''bob'' False 2),
                (''carol'', exampleUser ''carol'' False 1),
                (''dave'', exampleUser ''dave'' False 0)],
       verificationRequests =
         [(''r1'', \<lparr> request_doc.userId = ''bob'', status = pending,
                    reviewedAt = None, reviewedBy = None \<rparr>)] \<rparr>"

text \<open>
  A larger store: twelve authors with one post each; author \<open>u\<close>\<open>k\<close> posted at time
  \<open>k\<close> and has \<open>13 - k\<close> likes, except that the post of \<open>u11\<close> is the most liked. The
  only follow edge is from \<open>u01\<close> to \<open>u02\<close>.
\<close>

definition crowd :: "string list" where
  "crowd = [''u01'', ''u02'', ''u03'', ''u04'', ''u05'', ''u06'',
            ''u07'', ''u08'', ''u09'', ''u10'', ''u11'', ''u12'']"

definition crowdStore :: store where
  "crowdStore =
     \<lparr> posts = [(''q01'', examplePost ''u01'' 1 12 True),
                (''q02'', examplePost ''u02'' 2 11 True),
                (''q03'', examplePost ''u03'' 3 10 False),
                (''q04'', examplePost ''u04'' 4 9 True),
                (''q05'', examplePost ''u05'' 5 8 True),
                (''q06'', examplePost ''u06'' 6 7 True),
                (''q07'', examplePost ''u07'' 7 6 True),
                (''q08'', examplePost ''u08'' 8 5 True),
                (''q09'', examplePost ''u09'' 9 4 True),
                (''q10'', examplePost ''u10'' 10 3 True),
                (''q11'', examplePost ''u11'' 11 50 True),
                (''q12'', examplePost ''u12'' 12 1 True)],
       follows = [(''g1'', \<lparr> followerId = ''u01'', followingId = ''u02'', createdAt = 0 \<rparr>)],
       likes = [], users = [], verificationRequests = [] \<rparr>"

text \<open>
  Cards of the viewer \<open>dave\<close>, who has liked nothing: a fresh card for \<open>p1\<close>, toggled twice,
  and a card for \<open>p3\<close> whose local flag says liked although the store has no like edge.
\<close>

definition exampleCard :: post_card where
  "exampleCard = PostCard (docToPost (''p1'', examplePost ''bob'' 1000 5 True))"

definition exampleLiked :: "post_card handled" where
  "exampleLiked = handleLike (Some ''dave'') 9000 ''l2'' exampleCard exampleStore"

definition exampleUnliked :: "post_card handled" where
  "exampleUnliked = handleLike (Some ''dave'') 9500 ''l3'' (ui exampleLiked) (db exampleLiked)"

definition staleCard :: post_card where
  "staleCard = (PostCard (docToPost (''p3'', examplePost ''bob'' 3000 0 True)))\<lparr>liked := True\<rparr>"

text \<open>
  A post \<open>p9\<close> with \<open>2 ^ 53\<close> likes, and \<open>dave\<close>'s card for it, toggled twice.
\<close>

definition crowdedStore :: store where
  "crowdedStore =
     exampleStore\<lparr>posts := posts exampleStore @ [(''p9'', examplePost ''bob'' 4000 (2 ^ 53) True)]\<rparr>"

definition crowdedCard :: post_card where
  "crowdedCard = PostCard (docToPost (''p9'', examplePost ''bob'' 4000 (2 ^ 53) True))"

definition crowdedLiked :: "post_card handled" where
  "crowdedLiked = handleLike (Some ''dave'') 9000 ''l2'' crowdedCard crowdedStore"

definition crowdedUnliked :: "post_card handled" where
  "crowdedUnliked = handleLike (Some ''dave'') 9500 ''l3'' (ui crowdedLiked) (db crowdedLiked)"

text \<open>Two states of the create page: blank text, and text with white space around it.\<close>

definition blankPage :: create_page where
  "blankPage = \<lparr> text = ''  '', imageUrl = [], loading = False \<rparr>"

definition helloPage :: create_page where
  "helloPage = \<lparr> text = '' hello world  '', imageUrl = '' '', loading = False \<rparr>"

text \<open>
  A user card for \<open>bob\<close> as a viewer who does not follow him sees it, and as \<open>alice\<close> sees
  it once the follow status is checked.
\<close>

definition strangerCard :: user_card where
  "strangerCard = \<lparr> cardUid = ''bob'', cardUsername = ''bob'', isFollowing = False, loading = False \<rparr>"

definition followingCard :: user_card where
  "followingCard = checkFollowStatus (Some ''alice'') strangerCard exampleStore"

text \<open>
  The request \<open>r1\<close> approved by \<open>alice\<close> at time 7000, and approved once more by \<open>carol\<close>
  at time 8000 from a page that still lists it.
\<close>

definition exampleDecided :: "request_doc collection handled" where
  "exampleDecided =
     handleVerificationDecision (Some ''alice'') 7000 ''r1'' approved (Some ''bob'')
       (verificationRequests exampleStore) exampleStore"

definition exampleDecidedAgain :: "request_doc collection handled" where
  "exampleDecidedAgain =
     handleVerificationDecision (Some ''carol'') 8000 ''r1'' approved (Some ''bob'')
       (verificationRequests exampleStore) (db exampleDecided)"

section \<open>Properties of the database client\<close>

lemma all_in_image_subset: "\<forall>x \<in> A. f x \<in> B \<Longrightarrow> f ` A \<subseteq> B"
  by blast

lemma none_in_image: "\<forall>x \<in> A. f x \<noteq> u \<Longrightarrow> u \<notin> f ` A"
  by blast

lemma set_orderByDesc: "set (orderByDesc field docs) = set docs"
  by (simp add: orderByDesc_def)

lemma length_orderByDesc: "length (orderByDesc field docs) = length docs"
  by (simp add: orderByDesc_def)

lemma mset_orderByDesc: "mset (orderByDesc field docs) = mset docs"
  by (simp add: orderByDesc_def)

lemma sorted_orderByDesc:
  "sorted_wrt (\<lambda>a b. field (snd b) \<le> field (snd a)) (orderByDesc field docs)"
proof -
  have "sorted (map (\<lambda>d. - field (snd d)) (orderByDesc field docs))"
    unfolding orderByDesc_def by (rule sorted_sort_key)
  then show ?thesis
    by (simp add: sorted_wrt_map)
qed

lemma insort_key_map:
  "insort_key f (g x) (map g xs) = map g (insort_key (\<lambda>y. f (g y)) x xs)"
  by (induction xs) auto

lemma sort_key_map: "sort_key f (map g xs) = map g (sort_key (\<lambda>y. f (g y)) xs)"
  by (induction xs) (auto simp: insort_key_map)

lemma orderByDesc_map_same_key:
  assumes "\<And>i d. field (upd i d) = field d"
  shows "orderByDesc field (map (\<lambda>(i, d). (i, upd i d)) docs)
         = map (\<lambda>(i, d). (i, upd i d)) (orderByDesc field docs)"
proof -
  have "(\<lambda>y. - field (snd (case y of (i, d) \<Rightarrow> (i, upd i d)))) = (\<lambda>y. - field (snd y))"
    using assms by (auto simp: fun_eq_iff)
  then show ?thesis
    by (simp add: orderByDesc_def sort_key_map)
qed

lemma sorted_wrt_take_drop:
  assumes "sorted_wrt R xs" and "a \<in> set (take n xs)" and "b \<in> set (drop n xs)"
  shows "R a b"
proof -
  from assms(1) have "sorted_wrt R (take n xs @ drop n xs)" by simp
  with assms(2,3) show ?thesis
    unfolding sorted_wrt_append by blast
qed

lemma updateDoc_found:
  "map_of docs ref = Some d \<Longrightarrow> updateDoc ref upd docs = Inr (applyUpdate ref upd docs)"
  by (simp add: updateDoc_def applyUpdate_def)

lemma updateDoc_missing:
  "map_of docs ref = None \<Longrightarrow> updateDoc ref upd docs = Inl NotFound"
  by (simp add: updateDoc_def)

lemma map_of_applyUpdate:
  "map_of (applyUpdate ref upd docs) k
   = (if k = ref then map_option upd (map_of docs k) else map_of docs k)"
  by (induction docs) (auto simp: applyUpdate_def)

lemma applyUpdate_applyUpdate:
  assumes "\<And>d. upd' (upd d) = d"
  shows "applyUpdate ref upd' (applyUpdate ref upd docs) = docs"
  using assms by (induction docs) (auto simp: applyUpdate_def)

lemma applyUpdate_absent:
  "map_of docs ref = None \<Longrightarrow> applyUpdate ref upd docs = docs"
proof (induction docs)
  case Nil
  show ?case by (simp add: applyUpdate_def)
next
  case (Cons a docs)
  then show ?case
    by (cases a) (auto simp: applyUpdate_def split: if_splits)
qed

lemma applyUpdate_idem:
  assumes "\<And>d. upd (upd d) = upd d"
  shows "applyUpdate ref upd (applyUpdate ref upd docs) = applyUpdate ref upd docs"
  using assms by (induction docs) (auto simp: applyUpdate_def)

lemma deleteDoc_remove1:
  assumes "distinct (map fst docs)" and "d \<in> set docs"
  shows "deleteDoc (fst d) docs = remove1 d docs"
  using assms
proof (induction docs)
  case Nil
  then show ?case by simp
next
  case (Cons a docs)
  show ?case
  proof (cases "a = d")
    case True
    from Cons.prems(1) have "fst d \<notin> fst ` set docs"
      using True by simp
    then have "\<forall>e \<in> set docs. fst e \<noteq> fst d"
      by (metis image_eqI)
    then have "filter (\<lambda>(i, x). i \<noteq> fst d) docs = docs"
      by (simp add: filter_id_conv split_def)
    with True show ?thesis
      by (simp add: deleteDoc_def split_def)
  next
    case False
    with Cons.prems have "d \<in> set docs" and "distinct (map fst docs)"
      by simp_all
    then have ih: "deleteDoc (fst d) docs = remove1 d docs"
      using Cons.IH by simp
    from Cons.prems(1) \<open>d \<in> set docs\<close> have "fst a \<noteq> fst d"
      by (metis distinct.simps(2) image_eqI list.simps(9) set_map)
    with False ih show ?thesis
      by (simp add: deleteDoc_def split_def)
  qed
qed

section \<open>Properties of the feed\<close>

lemma docToPost_fields:
  "id' (docToPost d) = fst d"
  "Post.userId (docToPost d) = post_doc.userId (snd d)"
  "Post.createdAt (docToPost d) = post_doc.createdAt (snd d)"
  "Post.likeCount (docToPost d) = post_doc.likeCount (snd d)"
  "Post.commentCount (docToPost d) = post_doc.commentCount (snd d)"
  "Post.text (docToPost d) = post_doc.text (snd d)"
  by (simp_all add: docToPost_def Let_def)

lemma feed_of_followed:
  assumes "following \<noteq> []"
  shows "fetchHomeFeed following st =
         map docToPost (take 20 (orderByDesc post_doc.createdAt
           (filter (\<lambda>(i, p). post_doc.userId p \<in> set (take 10 following)) (posts st))))"
  using assms by (simp add: fetchHomeFeed_def)

lemma feed_authors_in_chunk:
  assumes "following \<noteq> []" and "p \<in> set (fetchHomeFeed following st)"
  shows "Post.userId p \<in> set (take 10 following)"
proof -
  from assms obtain d where
    d: "d \<in> set (take 20 (orderByDesc post_doc.createdAt
          (filter (\<lambda>(i, p). post_doc.userId p \<in> set (take 10 following)) (posts st))))"
    and p: "p = docToPost d"
    by (auto simp: feed_of_followed)
  from d have "d \<in> set (filter (\<lambda>(i, p). post_doc.userId p \<in> set (take 10 following)) (posts st))"
    using set_orderByDesc by (metis in_set_takeD)
  then have "post_doc.userId (snd d) \<in> set (take 10 following)"
    by auto
  with p show ?thesis
    by (simp add: docToPost_fields)
qed

lemma feed_recent_first:
  assumes "following \<noteq> []"
  shows "sorted_wrt (\<lambda>a b. Post.createdAt b \<le> Post.createdAt a) (fetchHomeFeed following st)"
proof -
  let ?docs = "filter (\<lambda>(i, p). post_doc.userId p \<in> set (take 10 following)) (posts st)"
  have "sorted_wrt (\<lambda>a b. post_doc.createdAt (snd b) \<le> post_doc.createdAt (snd a))
          (take 20 (orderByDesc post_doc.createdAt ?docs))"
    by (rule sorted_wrt_take) (rule sorted_orderByDesc)
  then show ?thesis
    using assms by (simp add: feed_of_followed sorted_wrt_map docToPost_fields)
qed

lemma feed_at_most_20:
  assumes "following \<noteq> []"
  shows "length (fetchHomeFeed following st) \<le> 20"
  using assms by (simp add: feed_of_followed)

text \<open>
  C1. For a viewer who follows between 1 and 10 identities, every entry of the home feed
  is authored by one of them, the entries are in descending order of creation time, and
  there are at most 20 of them.
\<close>

theorem C1_feed_of_followees:
  assumes "1 \<le> length following" and "length following \<le> 10"
  shows "(\<forall>p \<in> set (fetchHomeFeed following st). Post.userId p \<in> set following)
       \<and> sorted_wrt (\<lambda>a b. Post.createdAt b \<le> Post.createdAt a) (fetchHomeFeed following st)
       \<and> length (fetchHomeFeed following st) \<le> 20"
proof -
  from assms(1) have ne: "following \<noteq> []" by auto
  from assms(2) have "take 10 following = following" by simp
  with ne have "\<forall>p \<in> set (fetchHomeFeed following st). Post.userId p \<in> set following"
    using feed_authors_in_chunk by metis
  moreover from ne
  have "sorted_wrt (\<lambda>a b. Post.createdAt b \<le> Post.createdAt a) (fetchHomeFeed following st)"
    by (rule feed_recent_first)
  moreover from ne have "length (fetchHomeFeed following st) \<le> 20"
    by (rule feed_at_most_20)
  ultimately show ?thesis
    by blast
qed

text \<open>The example viewer \<open>alice\<close> follows \<open>bob\<close> alone and sees his two posts, newest first.\<close>

theorem C1_feed_of_followees_witness:
  "1 \<le> length [''bob''] \<and> length [''bob''] \<le> 10
   \<and> fetchFollowing (Some ''alice'') [] exampleStore = [''bob'']
   \<and> map id' (fetchHomeFeed [''bob''] exampleStore) = [''p3'', ''p1'']
   \<and> Post.userId ` set (fetchHomeFeed [''bob''] exampleStore) \<subseteq> set [''bob'']
   \<and> sorted_wrt (\<lambda>a b. Post.createdAt b \<le> Post.createdAt a) (fetchHomeFeed [''bob''] exampleStore)
   \<and> length (fetchHomeFeed [''bob''] exampleStore) \<le> 20"
proof -
  have h1: "1 \<le> length [''bob'']" and h2: "length [''bob''] \<le> 10"
    by simp_all
  have f: "fetchFollowing (Some ''alice'') [] exampleStore = [''bob'']"
    by code_simp
  have e: "map id' (fetchHomeFeed [''bob''] exampleStore) = [''p3'', ''p1'']"
    by code_simp
  note c = C1_feed_of_followees [OF h1 h2, of exampleStore]
  from c have "\<forall>p \<in> set (fetchHomeFeed [''bob''] exampleStore). Post.userId p \<in> set [''bob'']"
    by (rule conjunct1)
  then have a: "Post.userId ` set (fetchHomeFeed [''bob''] exampleStore) \<subseteq> set [''bob'']"
    by (rule all_in_image_subset)
  from c have s: "sorted_wrt (\<lambda>a b. Post.createdAt b \<le> Post.createdAt a)
                    (fetchHomeFeed [''bob''] exampleStore)"
    by (rule conjunct2 [THEN conjunct1])
  from c have l: "length (fetchHomeFeed [''bob''] exampleStore) \<le> 20"
    by (rule conjunct2 [THEN conjunct2])
  show ?thesis
    by (intro conjI h1 h2 f e a s l)
qed

lemma fetchFollowing_nobody:
  assumes "u \<notin> set (map (\<lambda>(i, f). followerId f) (follows st))"
  shows "fetchFollowing (Some u) prev st = []"
proof -
  have "filter (\<lambda>(i, f). followerId f = u) (follows st) = []"
    using assms by (auto simp: filter_empty_conv)
  then show ?thesis by (simp add: fetchFollowing_def)
qed

lemma feed_of_nobody:
  "fetchHomeFeed [] st = map docToPost (take 10 (orderByDesc post_doc.likeCount (posts st)))"
  by (simp add: fetchHomeFeed_def)

lemma popular_length:
  "length (fetchHomeFeed [] st) = min 10 (length (posts st))"
  by (simp add: feed_of_nobody length_orderByDesc)

lemma popular_sorted:
  "sorted_wrt (\<lambda>a b. Post.likeCount b \<le> Post.likeCount a) (fetchHomeFeed [] st)"
proof -
  have "sorted_wrt (\<lambda>a b. post_doc.likeCount (snd b) \<le> post_doc.likeCount (snd a))
          (take 10 (orderByDesc post_doc.likeCount (posts st)))"
    by (rule sorted_wrt_take) (rule sorted_orderByDesc)
  then show ?thesis
    by (simp add: feed_of_nobody sorted_wrt_map docToPost_fields)
qed

lemma popular_top:
  "\<exists>rest. mset (take 10 (orderByDesc post_doc.likeCount (posts st))) + mset rest = mset (posts st)
        \<and> (\<forall>s \<in> set (take 10 (orderByDesc post_doc.likeCount (posts st))). \<forall>r \<in> set rest.
              post_doc.likeCount (snd r) \<le> post_doc.likeCount (snd s))"
proof -
  let ?all = "orderByDesc post_doc.likeCount (posts st)"
  have "mset (take 10 ?all) + mset (drop 10 ?all) = mset ?all"
    by (simp flip: mset_append)
  then have m: "mset (take 10 ?all) + mset (drop 10 ?all) = mset (posts st)"
    by (simp add: mset_orderByDesc)
  have "\<forall>s \<in> set (take 10 ?all). \<forall>r \<in> set (drop 10 ?all).
          post_doc.likeCount (snd r) \<le> post_doc.likeCount (snd s)"
    using sorted_wrt_take_drop [OF sorted_orderByDesc] by blast
  with m show ?thesis by blast
qed

lemma popular_ignores_time_and_privacy:
  "map id' (fetchHomeFeed []
      (st\<lparr>posts := map (\<lambda>(i, p). (i, p\<lparr>post_doc.createdAt := t i p, isPublic := b i p\<rparr>)) (posts st)\<rparr>))
   = map id' (fetchHomeFeed [] st)"
proof -
  have "orderByDesc post_doc.likeCount
          (map (\<lambda>(i, p). (i, p\<lparr>post_doc.createdAt := t i p, isPublic := b i p\<rparr>)) (posts st))
        = map (\<lambda>(i, p). (i, p\<lparr>post_doc.createdAt := t i p, isPublic := b i p\<rparr>))
            (orderByDesc post_doc.likeCount (posts st))"
    by (rule orderByDesc_map_same_key) simp
  then show ?thesis
    by (simp add: feed_of_nobody take_map docToPost_fields comp_def split_def)
qed

text \<open>
  C2. For a viewer with no follow edge the home feed is the fallback: the ten most liked
  posts of the whole collection (all of them when there are fewer), in descending order of
  like count. Every post left out has at most as many likes as every post shown, and the
  selection does not depend on creation times or on the public flags.
\<close>

theorem C2_popular_fallback:
  assumes "u \<notin> set (map (\<lambda>(i, f). followerId f) (follows st))"
  shows "(let feed = fetchHomeFeed (fetchFollowing (Some u) prev st) st in
          length feed = min 10 (length (posts st))
        \<and> sorted_wrt (\<lambda>a b. Post.likeCount b \<le> Post.likeCount a) feed
        \<and> (\<exists>top rest. feed = map docToPost top
              \<and> mset top + mset rest = mset (posts st)
              \<and> (\<forall>s \<in> set top. \<forall>r \<in> set rest.
                    post_doc.likeCount (snd r) \<le> post_doc.likeCount (snd s)))
        \<and> (\<forall>t b. map id' (fetchHomeFeed (fetchFollowing (Some u) prev st)
                      (st\<lparr>posts := map (\<lambda>(i, p). (i, p\<lparr>post_doc.createdAt := t i p, isPublic := b i p\<rparr>))
                                      (posts st)\<rparr>))
                 = map id' feed))"
proof -
  from assms(1) have f: "fetchFollowing (Some u) prev st = []"
    by (rule fetchFollowing_nobody)
  have g: "fetchFollowing (Some u) prev (st\<lparr>posts := ps\<rparr>) = []" for ps
    using assms(1) by (intro fetchFollowing_nobody) simp
  have "\<exists>top rest. fetchHomeFeed [] st = map docToPost top
             \<and> mset top + mset rest = mset (posts st)
             \<and> (\<forall>s \<in> set top. \<forall>r \<in> set rest.
                   post_doc.likeCount (snd r) \<le> post_doc.likeCount (snd s))"
    using popular_top [of st] feed_of_nobody [of st] by blast
  then show ?thesis
    unfolding Let_def f g
    by (simp add: popular_length popular_sorted popular_ignores_time_and_privacy)
qed

text \<open>In the larger store \<open>u12\<close> follows nobody; the private post \<open>q03\<close> is among the ten shown.\<close>

theorem C2_popular_fallback_witness:
  "''u12'' \<notin> set (map (\<lambda>(i, f). followerId f) (follows crowdStore))
   \<and> map id' (fetchHomeFeed (fetchFollowing (Some ''u12'') [] crowdStore) crowdStore)
       = [''q11'', ''q01'', ''q02'', ''q03'', ''q04'', ''q05'', ''q06'', ''q07'', ''q08'', ''q09'']
   \<and> (let feed = fetchHomeFeed (fetchFollowing (Some ''u12'') [] crowdStore) crowdStore in
          length feed = min 10 (length (posts crowdStore))
        \<and> sorted_wrt (\<lambda>a b. Post.likeCount b \<le> Post.likeCount a) feed
        \<and> (\<exists>top rest. feed = map docToPost top
              \<and> mset top + mset rest = mset (posts crowdStore)
              \<and> (\<forall>s \<in> set top. \<forall>r \<in> set rest.
                    post_doc.likeCount (snd r) \<le> post_doc.likeCount (snd s)))
        \<and> (\<forall>t b. map id' (fetchHomeFeed (fetchFollowing (Some ''u12'') [] crowdStore)
                      (crowdStore\<lparr>posts := map (\<lambda>(i, p). (i, p\<lparr>post_doc.createdAt := t i p, isPublic := b i p\<rparr>))
                                      (posts crowdStore)\<rparr>))
                 = map id' feed))"
proof -
  have h: "''u12'' \<notin> set (map (\<lambda>(i, f). followerId f) (follows crowdStore))"
    by code_simp
  have e: "map id' (fetchHomeFeed (fetchFollowing (Some ''u12'') [] crowdStore) crowdStore)
       = [''q11'', ''q01'', ''q02'', ''q03'', ''q04'', ''q05'', ''q06'', ''q07'', ''q08'', ''q09'']"
    by code_simp
  show ?thesis
    by (intro conjI h e C2_popular_fallback [OF h])
qed

lemma feed_beyond_tenth:
  assumes "10 < length following" and "distinct following"
    and "u \<in> set (drop 10 following)" and "p \<in> set (fetchHomeFeed following st)"
  shows "Post.userId p \<noteq> u"
proof -
  from assms(1) have ne: "following \<noteq> []" by auto
  from assms(2) have "distinct (take 10 following @ drop 10 following)" by simp
  then have "set (take 10 following) \<inter> set (drop 10 following) = {}"
    unfolding distinct_append by blast
  with assms(3) have "u \<notin> set (take 10 following)" by blast
  moreover from ne assms(4) have "Post.userId p \<in> set (take 10 following)"
    by (rule feed_authors_in_chunk)
  ultimately show ?thesis by blast
qed

text \<open>
  C3. For a viewer who follows more than 10 identities, every entry of the home feed is
  authored by one of the first 10 in the order of the follow query; when the followed ids
  are pairwise distinct, no post of a followee beyond the 10th is in the feed.
\<close>

theorem C3_beyond_tenth_excluded:
  assumes "10 < length following"
  shows "(\<forall>p \<in> set (fetchHomeFeed following st). Post.userId p \<in> set (take 10 following))
       \<and> (distinct following \<longrightarrow>
            (\<forall>u \<in> set (drop 10 following). \<forall>p \<in> set (fetchHomeFeed following st). Post.userId p \<noteq> u))"
proof -
  from assms have ne: "following \<noteq> []" by auto
  then have "\<forall>p \<in> set (fetchHomeFeed following st). Post.userId p \<in> set (take 10 following)"
    using feed_authors_in_chunk by blast
  moreover have "distinct following \<longrightarrow>
            (\<forall>u \<in> set (drop 10 following). \<forall>p \<in> set (fetchHomeFeed following st). Post.userId p \<noteq> u)"
    using feed_beyond_tenth [OF assms] by blast
  ultimately show ?thesis by blast
qed

text \<open>
  With eleven followees the newest post among them is by the eleventh, \<open>u11\<close>, and the feed
  does not show it.
\<close>

theorem C3_beyond_tenth_excluded_witness:
  "10 < length (take 11 crowd) \<and> distinct (take 11 crowd)
   \<and> ''u11'' \<in> set (drop 10 (take 11 crowd))
   \<and> map post_doc.userId (map snd (take 1 (orderByDesc post_doc.createdAt
         (filter (\<lambda>(i, p). post_doc.userId p \<in> set (take 11 crowd)) (posts crowdStore))))) = [''u11'']
   \<and> map Post.userId (fetchHomeFeed (take 11 crowd) crowdStore)
       = [''u10'', ''u09'', ''u08'', ''u07'', ''u06'', ''u05'', ''u04'', ''u03'', ''u02'', ''u01'']
   \<and> ''u11'' \<notin> Post.userId ` set (fetchHomeFeed (take 11 crowd) crowdStore)"
proof -
  have h: "10 < length (take 11 crowd)"
    by code_simp
  have d: "distinct (take 11 crowd)"
    by code_simp
  have m: "''u11'' \<in> set (drop 10 (take 11 crowd))"
    by code_simp
  have r: "map post_doc.userId (map snd (take 1 (orderByDesc post_doc.createdAt
         (filter (\<lambda>(i, p). post_doc.userId p \<in> set (take 11 crowd)) (posts crowdStore))))) = [''u11'']"
    by code_simp
  have e: "map Post.userId (fetchHomeFeed (take 11 crowd) crowdStore)
       = [''u10'', ''u09'', ''u08'', ''u07'', ''u06'', ''u05'', ''u04'', ''u03'', ''u02'', ''u01'']"
    by code_simp
  from C3_beyond_tenth_excluded [OF h, of crowdStore]
  have "distinct (take 11 crowd) \<longrightarrow>
          (\<forall>u \<in> set (drop 10 (take 11 crowd)).
             \<forall>p \<in> set (fetchHomeFeed (take 11 crowd) crowdStore). Post.userId p \<noteq> u)"
    by (rule conjunct2)
  from this d
  have "\<forall>u \<in> set (drop 10 (take 11 crowd)).
          \<forall>p \<in> set (fetchHomeFeed (take 11 crowd) crowdStore). Post.userId p \<noteq> u"
    by (rule mp)
  from this m
  have "\<forall>p \<in> set (fetchHomeFeed (take 11 crowd) crowdStore). Post.userId p \<noteq> ''u11''"
    by (rule bspec)
  then have n: "''u11'' \<notin> Post.userId ` set (fetchHomeFeed (take 11 crowd) crowdStore)"
    by (rule none_in_image)
  show ?thesis
    by (intro conjI h d m r e n)
qed

section \<open>Properties of likes\<close>

lemma ulp_small: "m < 2 ^ 53 \<Longrightarrow> ulp m = 1"
  by (subst ulp.simps) simp

lemma roundDouble_small:
  assumes "\<bar>n\<bar> < 2 ^ 53"
  shows "roundDouble n = n"
proof -
  from assms have "ulp \<bar>n\<bar> = 1"
    by (rule ulp_small)
  then show ?thesis
    by (simp add: roundDouble_def Let_def mult_sgn_abs)
qed

lemma roundDouble_limit:
  "roundDouble (2 ^ 53) = 2 ^ 53" "roundDouble (- (2 ^ 53)) = - (2 ^ 53)"
  by code_simp+

lemma roundDouble_exact:
  assumes "\<bar>n\<bar> \<le> 2 ^ 53"
  shows "roundDouble n = n"
proof (cases "\<bar>n\<bar> < 2 ^ 53")
  case True
  then show ?thesis by (rule roundDouble_small)
next
  case False
  with assms have "n = 2 ^ 53 \<or> n = - (2 ^ 53)"
    by linarith
  then show ?thesis
    using roundDouble_limit by metis
qed

lemma roundDouble_up_down:
  assumes "\<bar>n\<bar> < 2 ^ 53"
  shows "roundDouble (roundDouble (n + 1) - 1) = n"
proof -
  from assms have "\<bar>n + 1\<bar> \<le> 2 ^ 53" by linarith
  then have "roundDouble (n + 1) = n + 1" by (rule roundDouble_exact)
  with assms show ?thesis by (simp add: roundDouble_small)
qed

lemma roundDouble_down_up:
  assumes "\<bar>n\<bar> < 2 ^ 53"
  shows "roundDouble (roundDouble (n - 1) + 1) = n"
proof -
  from assms have "\<bar>n - 1\<bar> \<le> 2 ^ 53" by linarith
  then have "roundDouble (n - 1) = n - 1" by (rule roundDouble_exact)
  with assms show ?thesis by (simp add: roundDouble_small)
qed

lemma handleLike_like:
  assumes "\<not> post_card.loading c" and "\<not> liked c"
    and "map_of (posts st) (id' (post c)) = Some p"
  shows "handleLike (Some u) now newId c st =
     \<lparr> outcome = Completed None,
       calls = [GetDocs ''likes'', AddDoc ''likes'', UpdateDoc ''posts'' (id' (post c))],
       ui = c\<lparr>liked := True, post_card.likeCount := roundDouble (post_card.likeCount c + 1),
               post_card.loading := False\<rparr>,
       db = st\<lparr>likes := likes st @ [(newId, \<lparr> postId = id' (post c), userId = u, createdAt = now \<rparr>)],
               posts := applyUpdate (id' (post c))
                          (\<lambda>p. p\<lparr>post_doc.likeCount := post_doc.likeCount p + 1\<rparr>) (posts st)\<rparr> \<rparr>"
  using assms by (simp add: handleLike_def Let_def addDoc_def updateDoc_found)

lemma handleLike_unlike:
  assumes "\<not> post_card.loading c" and "liked c"
    and "map_of (posts st) (id' (post c)) = Some p"
  shows "handleLike (Some u) now newId c st =
     \<lparr> outcome = Completed None,
       calls = [GetDocs ''likes'']
               @ (case likeQuery (id' (post c)) u st of [] \<Rightarrow> []
                  | d # _ \<Rightarrow> [DeleteDoc ''likes'' (fst d)])
               @ [UpdateDoc ''posts'' (id' (post c))],
       ui = c\<lparr>liked := False, post_card.likeCount := roundDouble (post_card.likeCount c - 1),
               post_card.loading := False\<rparr>,
       db = st\<lparr>likes := (case likeQuery (id' (post c)) u st of [] \<Rightarrow> likes st
                          | d # _ \<Rightarrow> deleteDoc (fst d) (likes st)),
               posts := applyUpdate (id' (post c))
                          (\<lambda>p. p\<lparr>post_doc.likeCount := post_doc.likeCount p + (-1)\<rparr>) (posts st)\<rparr> \<rparr>"
  using assms by (simp add: handleLike_def Let_def updateDoc_found split: list.splits)

lemma handleLike_completed:
  assumes "outcome (handleLike (Some u) now newId c st) = Completed None"
  shows "\<not> post_card.loading c \<and> (\<exists>p. map_of (posts st) (id' (post c)) = Some p)"
proof -
  have "\<not> post_card.loading c"
    using assms by (auto simp: handleLike_def)
  moreover have "map_of (posts st) (id' (post c)) \<noteq> None"
  proof
    assume "map_of (posts st) (id' (post c)) = None"
    then have "outcome (handleLike (Some u) now newId c st) \<noteq> Completed None"
      using \<open>\<not> post_card.loading c\<close>
      by (simp add: handleLike_def Let_def updateDoc_missing split: list.splits)
    with assms show False by contradiction
  qed
  ultimately show ?thesis by blast
qed

lemma likeQuery_after_like_unlike:
  assumes "likeQuery pid u st = []"
  shows "filter (\<lambda>(i, l). postId l = pid \<and> like_doc.userId l = u)
           (deleteDoc newId (likes st @ [(newId, \<lparr> postId = pid, userId = u, createdAt = now \<rparr>)])) = []"
proof -
  have "filter (\<lambda>(i, l). postId l = pid \<and> like_doc.userId l = u) (likes st) = []"
    using assms by (simp add: likeQuery_def)
  then show ?thesis
    by (auto simp: deleteDoc_def filter_empty_conv)
qed

text \<open>
  C4, as amended. Toggling a like twice on a settled card, both invocations of
  \<open>handleLike\<close> running to completion, restores the card's liked flag and the posts
  collection (so the item's stored like count) and leaves the card settled again. The
  count the card shows is restored when its magnitude is below \<open>2 ^ 53\<close>, where the card's
  steps of 1 are exact.
\<close>

theorem C4_toggle_twice:
  assumes "settled u c st"
    and "r1 = handleLike (Some u) now1 id1 c st" and "outcome r1 = Completed None"
    and "r2 = handleLike (Some u) now2 id2 (ui r1) (db r1)" and "outcome r2 = Completed None"
  shows "liked (ui r2) = liked c
       \<and> (\<bar>post_card.likeCount c\<bar> < 2 ^ 53 \<longrightarrow>
            post_card.likeCount (ui r2) = post_card.likeCount c)
       \<and> posts (db r2) = posts st
       \<and> settled u (ui r2) (db r2)"
proof -
  let ?pid = "id' (post c)"
  from assms(2,3) have idle: "\<not> post_card.loading c"
    and "\<exists>p. map_of (posts st) ?pid = Some p"
    using handleLike_completed by blast+
  then obtain p where p: "map_of (posts st) ?pid = Some p"
    by blast
  show ?thesis
  proof (cases "liked c")
    case False
    with assms(1) have none: "likeQuery ?pid u st = []"
      by (simp add: settled_def)
    have r1: "r1 = \<lparr> outcome = Completed None,
       calls = [GetDocs ''likes'', AddDoc ''likes'', UpdateDoc ''posts'' ?pid],
       ui = c\<lparr>liked := True, post_card.likeCount := roundDouble (post_card.likeCount c + 1),
               post_card.loading := False\<rparr>,
       db = st\<lparr>likes := likes st @ [(id1, \<lparr> postId = ?pid, userId = u, createdAt = now1 \<rparr>)],
               posts := applyUpdate ?pid
                          (\<lambda>p. p\<lparr>post_doc.likeCount := post_doc.likeCount p + 1\<rparr>) (posts st)\<rparr> \<rparr>"
      unfolding assms(2) using idle False p by (rule handleLike_like)
    have q: "likeQuery ?pid u (db r1) = [(id1, \<lparr> postId = ?pid, userId = u, createdAt = now1 \<rparr>)]"
      using none by (simp add: r1 likeQuery_def)
    have "map_of (posts (db r1)) (id' (post (ui r1)))
          = Some (p\<lparr>post_doc.likeCount := post_doc.likeCount p + 1\<rparr>)"
      by (simp add: r1 map_of_applyUpdate p)
    with handleLike_unlike [of "ui r1" "db r1" _ u now2 id2]
    have r2: "r2 = \<lparr> outcome = Completed None,
       calls = [GetDocs ''likes'', DeleteDoc ''likes'' id1, UpdateDoc ''posts'' ?pid],
       ui = c\<lparr>liked := False,
               post_card.likeCount := roundDouble (roundDouble (post_card.likeCount c + 1) - 1),
               post_card.loading := False\<rparr>,
       db = st\<lparr>likes := deleteDoc id1
                          (likes st @ [(id1, \<lparr> postId = ?pid, userId = u, createdAt = now1 \<rparr>)]),
               posts := applyUpdate ?pid
                          (\<lambda>p. p\<lparr>post_doc.likeCount := post_doc.likeCount p + (-1)\<rparr>)
                          (applyUpdate ?pid
                             (\<lambda>p. p\<lparr>post_doc.likeCount := post_doc.likeCount p + 1\<rparr>) (posts st))\<rparr> \<rparr>"
      unfolding assms(4) using q by (simp add: r1)
    have restored: "posts (db r2) = posts st"
      by (simp add: r2 applyUpdate_applyUpdate)
    have "likeQuery ?pid u (db r2) = []"
      using likeQuery_after_like_unlike [OF none] by (simp add: r2 likeQuery_def)
    then have "settled u (ui r2) (db r2)"
      by (simp add: settled_def r2)
    with restored False idle show ?thesis
      by (simp add: r2 roundDouble_up_down)
  next
    case True
    have r1: "r1 = \<lparr> outcome = Completed None,
       calls = [GetDocs ''likes'']
               @ (case likeQuery ?pid u st of [] \<Rightarrow> []
                  | d # _ \<Rightarrow> [DeleteDoc ''likes'' (fst d)])
               @ [UpdateDoc ''posts'' ?pid],
       ui = c\<lparr>liked := False, post_card.likeCount := roundDouble (post_card.likeCount c - 1),
               post_card.loading := False\<rparr>,
       db = st\<lparr>likes := (case likeQuery ?pid u st of [] \<Rightarrow> likes st
                          | d # _ \<Rightarrow> deleteDoc (fst d) (likes st)),
               posts := applyUpdate ?pid
                          (\<lambda>p. p\<lparr>post_doc.likeCount := post_doc.likeCount p + (-1)\<rparr>) (posts st)\<rparr> \<rparr>"
      unfolding assms(2) using idle True p by (rule handleLike_unlike)
    have "map_of (posts (db r1)) (id' (post (ui r1)))
          = Some (p\<lparr>post_doc.likeCount := post_doc.likeCount p + (-1)\<rparr>)"
      by (simp add: r1 map_of_applyUpdate p)
    with handleLike_like [of "ui r1" "db r1" _ u now2 id2]
    have r2: "r2 = \<lparr> outcome = Completed None,
       calls = [GetDocs ''likes'', AddDoc ''likes'', UpdateDoc ''posts'' ?pid],
       ui = c\<lparr>liked := True,
               post_card.likeCount := roundDouble (roundDouble (post_card.likeCount c - 1) + 1),
               post_card.loading := False\<rparr>,
       db = st\<lparr>likes := likes (db r1) @ [(id2, \<lparr> postId = ?pid, userId = u, createdAt = now2 \<rparr>)],
               posts := applyUpdate ?pid
                          (\<lambda>p. p\<lparr>post_doc.likeCount := post_doc.likeCount p + 1\<rparr>)
                          (applyUpdate ?pid
                             (\<lambda>p. p\<lparr>post_doc.likeCount := post_doc.likeCount p + (-1)\<rparr>) (posts st))\<rparr> \<rparr>"
      unfolding assms(4) by (simp add: r1)
    have restored: "posts (db r2) = posts st"
      by (simp add: r2 applyUpdate_applyUpdate)
    have "likeQuery ?pid u (db r2) \<noteq> []"
      by (simp add: r2 likeQuery_def)
    then have "settled u (ui r2) (db r2)"
      by (simp add: settled_def r2)
    with restored True idle show ?thesis
      by (simp add: r2 roundDouble_down_up)
  qed
qed

text \<open>\<open>dave\<close> likes \<open>p1\<close> (5 likes become 6) and unlikes it again.\<close>

theorem C4_toggle_twice_witness:
  "settled ''dave'' exampleCard exampleStore
   \<and> outcome exampleLiked = Completed None
   \<and> outcome exampleUnliked = Completed None
   \<and> \<bar>post_card.likeCount exampleCard\<bar> < 2 ^ 53
   \<and> liked (ui exampleLiked) \<and> post_card.likeCount (ui exampleLiked) = 6
   \<and> map_of (posts (db exampleLiked)) ''p1'' = Some (examplePost ''bob'' 1000 6 True)
   \<and> liked (ui exampleUnliked) = liked exampleCard
   \<and> post_card.likeCount (ui exampleUnliked) = post_card.likeCount exampleCard
   \<and> posts (db exampleUnliked) = posts exampleStore
   \<and> settled ''dave'' (ui exampleUnliked) (db exampleUnliked)"
proof -
  have s: "settled ''dave'' exampleCard exampleStore"
    by code_simp
  have o1: "outcome exampleLiked = Completed None"
    by code_simp
  have o2: "outcome exampleUnliked = Completed None"
    by code_simp
  have b: "\<bar>post_card.likeCount exampleCard\<bar> < 2 ^ 53"
    by code_simp
  have v1: "liked (ui exampleLiked)"
    by code_simp
  have v2: "post_card.likeCount (ui exampleLiked) = 6"
    by code_simp
  have v3: "map_of (posts (db exampleLiked)) ''p1'' = Some (examplePost ''bob'' 1000 6 True)"
    by code_simp
  note c = C4_toggle_twice [OF s exampleLiked_def o1 exampleUnliked_def o2]
  show ?thesis
    by (intro conjI s o1 o2 b v1 v2 v3 c [THEN conjunct1]
          c [THEN conjunct2, THEN conjunct1, THEN mp, OF b]
          c [THEN conjunct2, THEN conjunct2, THEN conjunct1]
          c [THEN conjunct2, THEN conjunct2, THEN conjunct2])
qed

text \<open>
  Without the bound the card's count is not restored: at \<open>2 ^ 53\<close> likes the card's step
  up is lost to rounding and its step down is not, so after a like and an unlike, both
  completed on a settled card, the card shows \<open>2 ^ 53 - 1\<close>.
\<close>

theorem C4_large_count_counterexample:
  "settled ''dave'' crowdedCard crowdedStore
   \<and> outcome crowdedLiked = Completed None
   \<and> outcome crowdedUnliked = Completed None
   \<and> post_card.likeCount crowdedCard = 2 ^ 53
   \<and> post_card.likeCount (ui crowdedLiked) = 2 ^ 53
   \<and> post_card.likeCount (ui crowdedUnliked) = 2 ^ 53 - 1
   \<and> post_card.likeCount (ui crowdedUnliked) \<noteq> post_card.likeCount crowdedCard"
  by code_simp

text \<open>
  C9. When \<open>handleLike\<close> runs on a card that shows the post as liked while the store holds
  no like edge of the viewer for it, no edge is deleted and the stored like count is still
  decremented by one, whatever its value. The card's own count takes its step down in
  doubles, which is exact up to a magnitude of \<open>2 ^ 53\<close>.
\<close>

theorem C9_unlike_without_edge:
  assumes "liked c" and "\<not> post_card.loading c"
    and "likeQuery (id' (post c)) u st = []"
    and "map_of (posts st) (id' (post c)) = Some p"
  shows "(let r = handleLike (Some u) now newId c st in
          outcome r = Completed None
        \<and> calls r = [GetDocs ''likes'', UpdateDoc ''posts'' (id' (post c))]
        \<and> likes (db r) = likes st
        \<and> map_of (posts (db r)) (id' (post c))
            = Some (p\<lparr>post_doc.likeCount := post_doc.likeCount p - 1\<rparr>)
        \<and> \<not> liked (ui r)
        \<and> post_card.likeCount (ui r) = roundDouble (post_card.likeCount c - 1)
        \<and> (\<bar>post_card.likeCount c - 1\<bar> \<le> 2 ^ 53 \<longrightarrow>
              post_card.likeCount (ui r) = post_card.likeCount c - 1))"
proof -
  from assms(2,1,4) assms(3) show ?thesis
    by (simp add: handleLike_unlike [where p = p] Let_def map_of_applyUpdate roundDouble_exact)
qed

text \<open>
  Post \<open>p3\<close> has no like edge and a like count of 0; after the toggle the stored count
  is -1, below zero and below the number of its like edges.
\<close>

theorem C9_unlike_without_edge_witness:
  "liked staleCard \<and> \<not> post_card.loading staleCard
   \<and> likeQuery (id' (post staleCard)) ''dave'' exampleStore = []
   \<and> map_of (posts exampleStore) (id' (post staleCard)) = Some (examplePost ''bob'' 3000 0 True)
   \<and> map_of (posts (db (handleLike (Some ''dave'') 9000 ''l2'' staleCard exampleStore))) ''p3''
       = Some (examplePost ''bob'' 3000 (- 1) True)
   \<and> length (filter (\<lambda>(i, l). postId l = ''p3'')
         (likes (db (handleLike (Some ''dave'') 9000 ''l2'' staleCard exampleStore)))) = 0
   \<and> post_card.likeCount (ui (handleLike (Some ''dave'') 9000 ''l2'' staleCard exampleStore)) = - 1
   \<and> (let r = handleLike (Some ''dave'') 9000 ''l2'' staleCard exampleStore in
          outcome r = Completed None
        \<and> calls r = [GetDocs ''likes'', UpdateDoc ''posts'' (id' (post staleCard))]
        \<and> likes (db r) = likes exampleStore
        \<and> map_of (posts (db r)) (id' (post staleCard))
            = Some ((examplePost ''bob'' 3000 0 True)
                 \<lparr>post_doc.likeCount := post_doc.likeCount (examplePost ''bob'' 3000 0 True) - 1\<rparr>)
        \<and> \<not> liked (ui r)
        \<and> post_card.likeCount (ui r) = roundDouble (post_card.likeCount staleCard - 1)
        \<and> (\<bar>post_card.likeCount staleCard - 1\<bar> \<le> 2 ^ 53 \<longrightarrow>
              post_card.likeCount (ui r) = post_card.likeCount staleCard - 1))"
proof -
  have h1: "liked staleCard" and h2: "\<not> post_card.loading staleCard"
    by code_simp+
  have h3: "likeQuery (id' (post staleCard)) ''dave'' exampleStore = []"
    by code_simp
  have h4: "map_of (posts exampleStore) (id' (post staleCard)) = Some (examplePost ''bob'' 3000 0 True)"
    by code_simp
  have v1: "map_of (posts (db (handleLike (Some ''dave'') 9000 ''l2'' staleCard exampleStore))) ''p3''
       = Some (examplePost ''bob'' 3000 (- 1) True)"
    by code_simp
  have v2: "length (filter (\<lambda>(i, l). postId l = ''p3'')
         (likes (db (handleLike (Some ''dave'') 9000 ''l2'' staleCard exampleStore)))) = 0"
    by code_simp
  have v3: "post_card.likeCount (ui (handleLike (Some ''dave'') 9000 ''l2'' staleCard exampleStore)) = - 1"
    by code_simp
  show ?thesis
    by (intro conjI h1 h2 h3 h4 v1 v2 v3 C9_unlike_without_edge [OF h1 h2 h3 h4])
qed

section \<open>Properties of posting\<close>

lemma trim_empty_iff: "trim s = [] \<longleftrightarrow> (\<forall>c \<in> set s. isWhiteSpace c)"
proof
  assume "trim s = []"
  then have "\<forall>c \<in> set (dropWhile isWhiteSpace s). isWhiteSpace c"
    by (simp add: trim_def dropWhile_eq_Nil_conv)
  then have "dropWhile isWhiteSpace s = []"
    using hd_dropWhile [of isWhiteSpace s] hd_in_set [of "dropWhile isWhiteSpace s"] by blast
  then show "\<forall>c \<in> set s. isWhiteSpace c"
    by (simp add: dropWhile_eq_Nil_conv)
next
  assume "\<forall>c \<in> set s. isWhiteSpace c"
  then have d: "dropWhile isWhiteSpace s = []"
    by (simp add: dropWhile_eq_Nil_conv)
  show "trim s = []"
    unfolding trim_def d by simp
qed

lemma checkRateLimit_iff:
  "checkRateLimit (Some u) now st
   \<longleftrightarrow> filter (\<lambda>(i, p). post_doc.userId p = u \<and> post_doc.createdAt p > now - 60 * 1000) (posts st) = []"
proof -
  have "take 1 xs = [] \<longleftrightarrow> xs = []" for xs :: "post_doc collection"
    by (cases xs) simp_all
  moreover have "orderByDesc f xs = [] \<longleftrightarrow> xs = []" for f and xs :: "post_doc collection"
    using length_orderByDesc [of f xs] by (metis length_0_conv)
  ultimately show ?thesis
    by (simp add: checkRateLimit_def Let_def)
qed

lemma checkRateLimit_recent:
  assumes "(i, p) \<in> set (posts st)" and "post_doc.userId p = u"
    and "now - 60 * 1000 < post_doc.createdAt p"
  shows "\<not> checkRateLimit (Some u) now st"
proof -
  from assms have "(i, p) \<in> set (filter (\<lambda>(i, p). post_doc.userId p = u \<and> post_doc.createdAt p > now - 60 * 1000) (posts st))"
    by simp
  then have "filter (\<lambda>(i, p). post_doc.userId p = u \<and> post_doc.createdAt p > now - 60 * 1000) (posts st) \<noteq> []"
    by (metis empty_iff empty_set)
  then show ?thesis
    by (simp add: checkRateLimit_iff)
qed

lemma handleSubmit_blank:
  assumes "trim (create_page.text page) = []"
  shows "handleSubmit user userProfile now now' newId page st =
     \<lparr> outcome = EarlyReturn (Some (Toast ''Error'' ''Please enter some text'')),
       calls = [], ui = page, db = st \<rparr>"
  using assms by (simp add: handleSubmit_def)

lemma handleSubmit_too_fast:
  assumes "trim (create_page.text page) \<noteq> []" and "\<not> checkRateLimit (Some u) now st"
  shows "handleSubmit (Some u) (Some profile) now now' newId page st =
     \<lparr> outcome = EarlyReturn (Some (Toast ''Too fast!'' ''You can only post once per minute'')),
       calls = [GetDocs ''posts''],
       ui = page\<lparr>create_page.loading := False\<rparr>,
       db = st \<rparr>"
  using assms by (simp add: handleSubmit_def)

lemma handleSubmit_posted:
  assumes "trim (create_page.text page) \<noteq> []" and "checkRateLimit (Some u) now st"
    and "map_of (users st) u = Some ud"
  shows "handleSubmit (Some u) (Some profile) now now' newId page st =
     \<lparr> outcome = Completed (Some (Toast ''Posted!'' ''Your post has been shared'')),
       calls = [GetDocs ''posts'', AddDoc ''posts'', UpdateDoc ''users'' u],
       ui = \<lparr> text = [], imageUrl = [], loading = False \<rparr>,
       db = st\<lparr>posts := posts st @ [(newId, postData u profile now' page)],
               users := applyUpdate u (\<lambda>d. d\<lparr>postCount := postCount d + 1\<rparr>) (users st)\<rparr> \<rparr>"
  using assms by (simp add: handleSubmit_def Let_def addDoc_def updateDoc_found postData_def)

lemma handleSubmit_counter_failed:
  assumes "trim (create_page.text page) \<noteq> []" and "checkRateLimit (Some u) now st"
    and "map_of (users st) u = None"
  shows "handleSubmit (Some u) (Some profile) now now' newId page st =
     \<lparr> outcome = Caught (Toast ''Error'' ''Failed to create post''),
       calls = [GetDocs ''posts'', AddDoc ''posts'', UpdateDoc ''users'' u],
       ui = page\<lparr>create_page.loading := False\<rparr>,
       db = st\<lparr>posts := posts st @ [(newId, postData u profile now' page)]\<rparr> \<rparr>"
  using assms by (simp add: handleSubmit_def Let_def addDoc_def updateDoc_missing postData_def)

lemma handleSubmit_completed:
  assumes "outcome (handleSubmit (Some u) (Some profile) now now' newId page st) = Completed t"
  shows "trim (create_page.text page) \<noteq> [] \<and> checkRateLimit (Some u) now st
       \<and> (\<exists>ud. map_of (users st) u = Some ud)"
proof -
  have a: "trim (create_page.text page) \<noteq> []"
  proof
    assume "trim (create_page.text page) = []"
    then have "outcome (handleSubmit (Some u) (Some profile) now now' newId page st)
               = EarlyReturn (Some (Toast ''Error'' ''Please enter some text''))"
      by (simp add: handleSubmit_blank)
    with assms show False by simp
  qed
  have b: "checkRateLimit (Some u) now st"
  proof (rule ccontr)
    assume "\<not> checkRateLimit (Some u) now st"
    with a have "outcome (handleSubmit (Some u) (Some profile) now now' newId page st)
               = EarlyReturn (Some (Toast ''Too fast!'' ''You can only post once per minute''))"
      by (simp add: handleSubmit_too_fast)
    with assms show False by simp
  qed
  have "map_of (users st) u \<noteq> None"
  proof
    assume "map_of (users st) u = None"
    with a b have "outcome (handleSubmit (Some u) (Some profile) now now' newId page st)
               = Caught (Toast ''Error'' ''Failed to create post'')"
      by (simp add: handleSubmit_counter_failed)
    with assms show False by simp
  qed
  with a b show ?thesis by blast
qed

text \<open>
  C5, as amended. For a signed-in author whose profile is loaded, who submits text that is
  not blank after trimming and who has a post created later than 60 seconds before the
  clock reading of the check, \<open>handleSubmit\<close> leaves with the notice "Too fast!", having
  issued the rate-limit query only, and the store is unchanged: no post is inserted and no
  counter is written.
\<close>

theorem C5_rate_limited:
  assumes "trim (create_page.text page) \<noteq> []"
    and "(i, p) \<in> set (posts st)" and "post_doc.userId p = u"
    and "now - 60 * 1000 < post_doc.createdAt p"
  shows "(let r = handleSubmit (Some u) (Some profile) now now' newId page st in
          outcome r = EarlyReturn (Some (Toast ''Too fast!'' ''You can only post once per minute''))
        \<and> calls r = [GetDocs ''posts'']
        \<and> db r = st)"
proof -
  from assms(2-4) have "\<not> checkRateLimit (Some u) now st"
    by (rule checkRateLimit_recent)
  with assms(1) show ?thesis
    by (simp add: handleSubmit_too_fast)
qed

text \<open>\<open>alice\<close> posted \<open>p4\<close> at 100000 and submits again at 120000.\<close>

theorem C5_rate_limited_witness:
  "trim (create_page.text helloPage) \<noteq> []
   \<and> (''p4'', examplePost ''alice'' 100000 2 False) \<in> set (posts exampleStore)
   \<and> post_doc.userId (examplePost ''alice'' 100000 2 False) = ''alice''
   \<and> 120000 - 60 * 1000 < post_doc.createdAt (examplePost ''alice'' 100000 2 False)
   \<and> (let r = handleSubmit (Some ''alice'') (Some (exampleUser ''alice'' True 1))
                 120000 120001 ''p5'' helloPage exampleStore in
          outcome r = EarlyReturn (Some (Toast ''Too fast!'' ''You can only post once per minute''))
        \<and> calls r = [GetDocs ''posts'']
        \<and> db r = exampleStore)"
proof -
  have h1: "trim (create_page.text helloPage) \<noteq> []"
    by code_simp
  have h2: "(''p4'', examplePost ''alice'' 100000 2 False) \<in> set (posts exampleStore)"
    by code_simp
  have h3: "post_doc.userId (examplePost ''alice'' 100000 2 False) = ''alice''"
    by code_simp
  have h4: "120000 - 60 * 1000 < post_doc.createdAt (examplePost ''alice'' 100000 2 False)"
    by code_simp
  show ?thesis
    by (intro conjI h1 h2 h3 h4 C5_rate_limited [OF h1 h2 h3 h4])
qed

text \<open>
  Without the condition on the text the statement fails: with blank text the same author,
  20 seconds after her last post, is turned away with the notice "Please enter some text",
  not with the rate-limit notice.
\<close>

theorem C5_blank_text_counterexample:
  "(''p4'', examplePost ''alice'' 100000 2 False) \<in> set (posts exampleStore)
   \<and> post_doc.userId (examplePost ''alice'' 100000 2 False) = ''alice''
   \<and> 120000 - 60 * 1000 < post_doc.createdAt (examplePost ''alice'' 100000 2 False)
   \<and> post_doc.createdAt (examplePost ''alice'' 100000 2 False) \<le> 120000
   \<and> outcome (handleSubmit (Some ''alice'') (Some (exampleUser ''alice'' True 1))
                 120000 120001 ''p5'' blankPage exampleStore)
       = EarlyReturn (Some (Toast ''Error'' ''Please enter some text''))
   \<and> outcome (handleSubmit (Some ''alice'') (Some (exampleUser ''alice'' True 1))
                 120000 120001 ''p5'' blankPage exampleStore)
       \<noteq> EarlyReturn (Some (Toast ''Too fast!'' ''You can only post once per minute''))"
  by code_simp

text \<open>
  C6. When \<open>handleSubmit\<close> runs to completion, the rate-limit check has passed, exactly one
  post is appended to the posts collection, with both counters 0, the author's id and a
  public flag that negates the profile's privacy flag; after the insert the author's post
  counter is incremented by one (from 0 to 1 in particular) and no other user document
  changes.
\<close>

theorem C6_post_created:
  assumes "r = handleSubmit (Some u) (Some profile) now now' newId page st"
    and "outcome r = Completed t"
  shows "checkRateLimit (Some u) now st
       \<and> calls r = [GetDocs ''posts'', AddDoc ''posts'', UpdateDoc ''users'' u]
       \<and> (\<exists>pd. posts (db r) = posts st @ [(newId, pd)]
              \<and> post_doc.userId pd = u
              \<and> post_doc.likeCount pd = 0 \<and> post_doc.commentCount pd = 0
              \<and> isPublic pd = (\<not> isPrivate profile)
              \<and> post_doc.createdAt pd = now')
       \<and> (\<exists>ud. map_of (users st) u = Some ud
              \<and> map_of (users (db r)) u = Some (ud\<lparr>postCount := postCount ud + 1\<rparr>)
              \<and> (postCount ud = 0 \<longrightarrow> map_option postCount (map_of (users (db r)) u) = Some 1))
       \<and> (\<forall>k. k \<noteq> u \<longrightarrow> map_of (users (db r)) k = map_of (users st) k)"
proof -
  from assms have ok: "trim (create_page.text page) \<noteq> []" "checkRateLimit (Some u) now st"
    and "\<exists>ud. map_of (users st) u = Some ud"
    using handleSubmit_completed by blast+
  then obtain ud where ud: "map_of (users st) u = Some ud"
    by blast
  note r = assms(1) [unfolded handleSubmit_posted [OF ok ud]]
  have "posts (db r) = posts st @ [(newId, postData u profile now' page)]"
    by (simp add: r)
  moreover have "post_doc.userId (postData u profile now' page) = u"
    "post_doc.likeCount (postData u profile now' page) = 0"
    "post_doc.commentCount (postData u profile now' page) = 0"
    "isPublic (postData u profile now' page) = (\<not> isPrivate profile)"
    "post_doc.createdAt (postData u profile now' page) = now'"
    by (simp_all add: postData_def)
  ultimately have p: "\<exists>pd. posts (db r) = posts st @ [(newId, pd)]
              \<and> post_doc.userId pd = u
              \<and> post_doc.likeCount pd = 0 \<and> post_doc.commentCount pd = 0
              \<and> isPublic pd = (\<not> isPrivate profile)
              \<and> post_doc.createdAt pd = now'"
    by blast
  have c: "map_of (users (db r)) k
           = (if k = u then map_option (\<lambda>d. d\<lparr>postCount := postCount d + 1\<rparr>) (map_of (users st) k)
              else map_of (users st) k)" for k
    by (simp add: r map_of_applyUpdate)
  have "map_of (users (db r)) u = Some (ud\<lparr>postCount := postCount ud + 1\<rparr>)"
    by (simp add: c ud)
  then have q: "\<exists>ud. map_of (users st) u = Some ud
              \<and> map_of (users (db r)) u = Some (ud\<lparr>postCount := postCount ud + 1\<rparr>)
              \<and> (postCount ud = 0 \<longrightarrow> map_option postCount (map_of (users (db r)) u) = Some 1)"
    using ud by simp
  have "calls r = [GetDocs ''posts'', AddDoc ''posts'', UpdateDoc ''users'' u]"
    by (simp add: r)
  with ok(2) p q c show ?thesis
    by simp
qed

text \<open>\<open>dave\<close>, with a post counter of 0, posts "hello world".\<close>

theorem C6_post_created_witness:
  "outcome (handleSubmit (Some ''dave'') (Some (exampleUser ''dave'' False 0))
              200000 200001 ''p5'' helloPage exampleStore)
     = Completed (Some (Toast ''Posted!'' ''Your post has been shared''))
   \<and> map_of (users exampleStore) ''dave'' = Some (exampleUser ''dave'' False 0)
   \<and> posts (db (handleSubmit (Some ''dave'') (Some (exampleUser ''dave'' False 0))
              200000 200001 ''p5'' helloPage exampleStore))
     = posts exampleStore @
       [(''p5'', \<lparr> post_doc.userId = ''dave'', username = ''dave'', displayName = ''dave'',
                   text = ''hello world'', imageUrl = None, createdAt = 200001,
                   likeCount = 0, commentCount = 0, isPublic = True \<rparr>)]
   \<and> map_of (users (db (handleSubmit (Some ''dave'') (Some (exampleUser ''dave'' False 0))
              200000 200001 ''p5'' helloPage exampleStore))) ''dave''
     = Some (exampleUser ''dave'' False 1)
   \<and> checkRateLimit (Some ''dave'') 200000 exampleStore
   \<and> calls (handleSubmit (Some ''dave'') (Some (exampleUser ''dave'' False 0))
              200000 200001 ''p5'' helloPage exampleStore)
     = [GetDocs ''posts'', AddDoc ''posts'', UpdateDoc ''users'' ''dave'']"
proof -
  have o: "outcome (handleSubmit (Some ''dave'') (Some (exampleUser ''dave'' False 0))
              200000 200001 ''p5'' helloPage exampleStore)
     = Completed (Some (Toast ''Posted!'' ''Your post has been shared''))"
    by code_simp
  have v1: "map_of (users exampleStore) ''dave'' = Some (exampleUser ''dave'' False 0)"
    by code_simp
  have v2: "posts (db (handleSubmit (Some ''dave'') (Some (exampleUser ''dave'' False 0))
              200000 200001 ''p5'' helloPage exampleStore))
     = posts exampleStore @
       [(''p5'', \<lparr> post_doc.userId = ''dave'', username = ''dave'', displayName = ''dave'',
                   text = ''hello world'', imageUrl = None, createdAt = 200001,
                   likeCount = 0, commentCount = 0, isPublic = True \<rparr>)]"
    by code_simp
  have v3: "map_of (users (db (handleSubmit (Some ''dave'') (Some (exampleUser ''dave'' False 0))
              200000 200001 ''p5'' helloPage exampleStore))) ''dave''
     = Some (exampleUser ''dave'' False 1)"
    by code_simp
  note c = C6_post_created [OF refl o]
  show ?thesis
    by (intro conjI o v1 v2 v3 c [THEN conjunct1] c [THEN conjunct2, THEN conjunct1])
qed

lemma handleSubmit_posts:
  "posts (db (handleSubmit user userProfile now now' newId page st)) = posts st
   \<or> (\<exists>u profile. user = Some u \<and> userProfile = Some profile
         \<and> trim (create_page.text page) \<noteq> []
         \<and> posts (db (handleSubmit user userProfile now now' newId page st))
             = posts st @ [(newId, postData u profile now' page)])"
proof (cases "trim (create_page.text page) = []")
  case True
  then show ?thesis by (simp add: handleSubmit_blank)
next
  case False
  show ?thesis
  proof (cases user)
    case None
    with False show ?thesis by (simp add: handleSubmit_def)
  next
    case (Some u)
    note u = this
    show ?thesis
    proof (cases userProfile)
      case None
      with False u show ?thesis by (simp add: handleSubmit_def)
    next
      case (Some profile)
      show ?thesis
      proof (cases "checkRateLimit (Some u) now st")
        case False
        with \<open>trim (create_page.text page) \<noteq> []\<close> u Some show ?thesis
          by (simp add: handleSubmit_too_fast)
      next
        case True
        with \<open>trim (create_page.text page) \<noteq> []\<close> u Some show ?thesis
          by (cases "map_of (users st) u")
             (simp_all add: handleSubmit_counter_failed handleSubmit_posted)
      qed
    qed
  qed
qed

text \<open>
  C10. When every character of the text is white space (the empty text included),
  \<open>handleSubmit\<close> leaves with the notice "Please enter some text" before any remote call:
  the trace is empty and the store and the page are unchanged. Whenever a post is stored,
  its text is the trimmed input, which is not empty.
\<close>

theorem C10_blank_text_rejected:
  "(let r = handleSubmit user userProfile now now' newId page st in
      ((\<forall>c \<in> set (create_page.text page). isWhiteSpace c) \<longrightarrow>
          outcome r = EarlyReturn (Some (Toast ''Error'' ''Please enter some text''))
        \<and> calls r = [] \<and> db r = st \<and> ui r = page)
    \<and> (posts (db r) = posts st
        \<or> (\<exists>pd. posts (db r) = posts st @ [(newId, pd)]
               \<and> post_doc.text pd = trim (create_page.text page)
               \<and> post_doc.text pd \<noteq> [])))"
proof -
  have "post_doc.text (postData u profile now' page) = trim (create_page.text page)" for u profile
    by (simp add: postData_def)
  then have "posts (db (handleSubmit user userProfile now now' newId page st)) = posts st
        \<or> (\<exists>pd. posts (db (handleSubmit user userProfile now now' newId page st))
                    = posts st @ [(newId, pd)]
               \<and> post_doc.text pd = trim (create_page.text page)
               \<and> post_doc.text pd \<noteq> [])"
    using handleSubmit_posts [of user userProfile now now' newId page st] by metis
  then show ?thesis
    by (simp add: Let_def handleSubmit_blank flip: trim_empty_iff)
qed

text \<open>Blank text is turned away; \<open>'' hello world  ''\<close> is stored as \<open>''hello world''\<close>.\<close>

theorem C10_blank_text_rejected_witness:
  "(let r = handleSubmit (Some ''dave'') (Some (exampleUser ''dave'' False 0))
              200000 200001 ''p5'' blankPage exampleStore in
      list_all isWhiteSpace (create_page.text blankPage)
    \<and> outcome r = EarlyReturn (Some (Toast ''Error'' ''Please enter some text''))
    \<and> calls r = [] \<and> db r = exampleStore \<and> ui r = blankPage)
   \<and> post_doc.text (snd (last (posts (db (handleSubmit (Some ''dave'')
        (Some (exampleUser ''dave'' False 0)) 200000 200001 ''p5'' helloPage exampleStore)))))
      = ''hello world''"
proof -
  have h: "\<forall>c \<in> set (create_page.text blankPage). isWhiteSpace c"
    by code_simp
  have v: "post_doc.text (snd (last (posts (db (handleSubmit (Some ''dave'')
        (Some (exampleUser ''dave'' False 0)) 200000 200001 ''p5'' helloPage exampleStore)))))
      = ''hello world''"
    by code_simp
  from h have l: "list_all isWhiteSpace (create_page.text blankPage)"
    by (simp add: list_all_iff)
  note c = C10_blank_text_rejected [of "Some ''dave''" "Some (exampleUser ''dave'' False 0)"
              200000 200001 "''p5''" blankPage exampleStore, unfolded Let_def, THEN conjunct1,
              THEN mp, OF h]
  show ?thesis
    unfolding Let_def by (intro conjI l v c [THEN conjunct1] c [THEN conjunct2, THEN conjunct1]
       c [THEN conjunct2, THEN conjunct2, THEN conjunct1] c [THEN conjunct2, THEN conjunct2, THEN conjunct2])
qed

section \<open>Properties of follow and unfollow\<close>

lemma followQuery_hd_in_follows:
  assumes "followQuery u t st = d # ds"
  shows "d \<in> set (follows st)"
proof -
  have "d \<in> set (followQuery u t st)"
    by (simp add: assms)
  then show ?thesis
    by (simp add: followQuery_def)
qed

lemma handleFollow_frame:
  "users (db (handleFollow currentUser now newId c st)) = users st"
  "posts (db (handleFollow currentUser now newId c st)) = posts st"
  "likes (db (handleFollow currentUser now newId c st)) = likes st"
  "verificationRequests (db (handleFollow currentUser now newId c st)) = verificationRequests st"
  by (simp_all add: handleFollow_def Let_def split: option.splits list.splits)

lemma handleFollow_calls:
  assumes "x \<in> set (calls (handleFollow currentUser now newId c st))"
  shows "x = GetDocs ''follows'' \<or> x = SetDoc ''follows'' \<or> (\<exists>ref. x = DeleteDoc ''follows'' ref)"
  using assms by (auto simp: handleFollow_def Let_def split: option.splits list.splits if_splits)

lemma handleFollow_follow:
  assumes "\<not> user_card.loading c" and "\<not> isFollowing c"
  shows "follows (db (handleFollow (Some u) now newId c st))
         = follows st @ [(newId, \<lparr> followerId = u, followingId = cardUid c, createdAt = now \<rparr>)]"
  using assms by (simp add: handleFollow_def addDoc_def)

lemma handleFollow_unfollow:
  assumes "\<not> user_card.loading c" and "isFollowing c"
  shows "follows (db (handleFollow (Some u) now newId c st))
         = (case followQuery u (cardUid c) st of
              [] \<Rightarrow> follows st
            | d # _ \<Rightarrow> deleteDoc (fst d) (follows st))"
  using assms by (simp add: handleFollow_def Let_def split: list.splits)

lemma handleFollow_ignored:
  assumes "currentUser = None \<or> user_card.loading c"
  shows "db (handleFollow currentUser now newId c st) = st"
  using assms by (auto simp: handleFollow_def split: option.splits)

text \<open>
  C7. \<open>handleFollow\<close> never changes the users collection, so no follower or following
  counter changes, and it issues no update call: its remote calls are the follow query, the
  creation of a follow edge, or the deletion of one. Following appends one edge;
  unfollowing deletes the first edge of the query result, if there is one (with pairwise
  distinct document ids, exactly that edge); without a user or while busy nothing changes.
\<close>

theorem C7_follow_leaves_counters:
  "(let r = handleFollow currentUser now newId c st in
      users (db r) = users st
    \<and> posts (db r) = posts st \<and> likes (db r) = likes st
    \<and> verificationRequests (db r) = verificationRequests st
    \<and> (\<forall>x \<in> set (calls r). x = GetDocs ''follows'' \<or> x = SetDoc ''follows''
                              \<or> (\<exists>ref. x = DeleteDoc ''follows'' ref))
    \<and> (currentUser = None \<or> user_card.loading c \<longrightarrow> db r = st)
    \<and> (currentUser = Some u \<and> \<not> user_card.loading c \<and> \<not> isFollowing c \<longrightarrow>
          follows (db r)
          = follows st @ [(newId, \<lparr> followerId = u, followingId = cardUid c, createdAt = now \<rparr>)])
    \<and> (currentUser = Some u \<and> \<not> user_card.loading c \<and> isFollowing c \<longrightarrow>
          (case followQuery u (cardUid c) st of
             [] \<Rightarrow> follows (db r) = follows st
           | d # _ \<Rightarrow> follows (db r) = deleteDoc (fst d) (follows st)
                      \<and> (distinct (map fst (follows st)) \<longrightarrow>
                            follows (db r) = remove1 d (follows st)))))"
proof -
  let ?r = "handleFollow currentUser now newId c st"
  have a: "\<forall>x \<in> set (calls ?r). x = GetDocs ''follows'' \<or> x = SetDoc ''follows''
                              \<or> (\<exists>ref. x = DeleteDoc ''follows'' ref)"
    using handleFollow_calls by blast
  have b: "currentUser = None \<or> user_card.loading c \<longrightarrow> db ?r = st"
    using handleFollow_ignored by blast
  have f: "currentUser = Some u \<and> \<not> user_card.loading c \<and> \<not> isFollowing c \<longrightarrow>
          follows (db ?r)
          = follows st @ [(newId, \<lparr> followerId = u, followingId = cardUid c, createdAt = now \<rparr>)]"
    using handleFollow_follow by blast
  have g: "currentUser = Some u \<and> \<not> user_card.loading c \<and> isFollowing c \<longrightarrow>
          (case followQuery u (cardUid c) st of
             [] \<Rightarrow> follows (db ?r) = follows st
           | d # _ \<Rightarrow> follows (db ?r) = deleteDoc (fst d) (follows st)
                      \<and> (distinct (map fst (follows st)) \<longrightarrow>
                            follows (db ?r) = remove1 d (follows st)))"
  proof (intro impI, elim conjE)
    assume h: "currentUser = Some u" "\<not> user_card.loading c" "isFollowing c"
    show "case followQuery u (cardUid c) st of
             [] \<Rightarrow> follows (db ?r) = follows st
           | d # _ \<Rightarrow> follows (db ?r) = deleteDoc (fst d) (follows st)
                      \<and> (distinct (map fst (follows st)) \<longrightarrow>
                            follows (db ?r) = remove1 d (follows st))"
    proof (cases "followQuery u (cardUid c) st")
      case Nil
      with h show ?thesis
        by (simp add: handleFollow_unfollow)
    next
      case (Cons d ds)
      then have "d \<in> set (follows st)"
        by (rule followQuery_hd_in_follows)
      then have "distinct (map fst (follows st)) \<longrightarrow> deleteDoc (fst d) (follows st) = remove1 d (follows st)"
        using deleteDoc_remove1 by blast
      with h Cons show ?thesis
        by (simp add: handleFollow_unfollow)
    qed
  qed
  from a b f g show ?thesis
    unfolding Let_def handleFollow_frame by (intro conjI refl)
qed

text \<open>\<open>alice\<close> unfollows \<open>bob\<close>, and \<open>dave\<close> follows him; the user documents stay as they were.\<close>

theorem C7_follow_leaves_counters_witness:
  "isFollowing followingCard \<and> \<not> user_card.loading followingCard
   \<and> users (db (handleFollow (Some ''alice'') 7000 ''f2'' followingCard exampleStore))
       = users exampleStore
   \<and> follows (db (handleFollow (Some ''alice'') 7000 ''f2'' followingCard exampleStore)) = []
   \<and> calls (handleFollow (Some ''alice'') 7000 ''f2'' followingCard exampleStore)
       = [GetDocs ''follows'', DeleteDoc ''follows'' ''f1'']
   \<and> \<not> isFollowing strangerCard \<and> \<not> user_card.loading strangerCard
   \<and> users (db (handleFollow (Some ''dave'') 7000 ''f2'' strangerCard exampleStore))
       = users exampleStore
   \<and> follows (db (handleFollow (Some ''dave'') 7000 ''f2'' strangerCard exampleStore))
       = follows exampleStore
         @ [(''f2'', \<lparr> followerId = ''dave'', followingId = cardUid strangerCard, createdAt = 7000 \<rparr>)]
   \<and> calls (handleFollow (Some ''dave'') 7000 ''f2'' strangerCard exampleStore) = [SetDoc ''follows'']"
proof -
  have h1: "isFollowing followingCard" and h2: "\<not> user_card.loading followingCard"
    and h3: "\<not> isFollowing strangerCard" and h4: "\<not> user_card.loading strangerCard"
    by code_simp+
  have v1: "follows (db (handleFollow (Some ''alice'') 7000 ''f2'' followingCard exampleStore)) = []"
    by code_simp
  have v2: "calls (handleFollow (Some ''alice'') 7000 ''f2'' followingCard exampleStore)
       = [GetDocs ''follows'', DeleteDoc ''follows'' ''f1'']"
    by code_simp
  have v3: "calls (handleFollow (Some ''dave'') 7000 ''f2'' strangerCard exampleStore) = [SetDoc ''follows'']"
    by code_simp
  note a = C7_follow_leaves_counters [of "Some ''alice''" 7000 "''f2''" followingCard exampleStore,
             unfolded Let_def, THEN conjunct1]
  note d = C7_follow_leaves_counters [of "Some ''dave''" 7000 "''f2''" strangerCard exampleStore "''dave''",
             unfolded Let_def]
  note d1 = d [THEN conjunct1]
  have "Some ''dave'' = Some ''dave'' \<and> \<not> user_card.loading strangerCard \<and> \<not> isFollowing strangerCard"
    by (intro conjI refl h3 h4)
  note d2 = d [THEN conjunct2, THEN conjunct2, THEN conjunct2, THEN conjunct2, THEN conjunct2,
               THEN conjunct2, THEN conjunct1, THEN mp, OF this]
  show ?thesis
    by (intro conjI h1 h2 h3 h4 v1 v2 v3 a d1 d2)
qed

section \<open>Properties of verification decisions\<close>

lemma decision_request_missing:
  assumes "map_of (verificationRequests st) requestId = None"
  shows "handleVerificationDecision (Some admin) now requestId decision target page st =
     \<lparr> outcome = Caught (Toast ''Error'' ''Failed to update verification request''),
       calls = [UpdateDoc ''verificationRequests'' requestId],
       ui = page, db = st \<rparr>"
  using assms by (simp add: handleVerificationDecision_def Let_def updateDoc_missing)

lemma decision_requests:
  assumes "map_of (verificationRequests st) requestId = Some rq"
  shows "verificationRequests (db (handleVerificationDecision (Some admin) now requestId decision target page st))
         = applyUpdate requestId
             (\<lambda>r. r\<lparr>status := decided decision, reviewedAt := Some now, reviewedBy := Some admin\<rparr>)
             (verificationRequests st)"
  using assms
  by (simp add: handleVerificationDecision_def Let_def updateDoc_found updateDoc_def
           split: option.splits)

lemma decision_users:
  assumes "map_of (verificationRequests st) requestId = Some rq"
  shows "users (db (handleVerificationDecision (Some admin) now requestId decision target page st))
         = (case target of
              None \<Rightarrow> users st
            | Some t \<Rightarrow> if decision = approved \<and> t \<noteq> []
                        then applyUpdate t (\<lambda>d. d\<lparr>isVerified := True\<rparr>) (users st)
                        else users st)"
proof (cases target)
  case None
  with assms show ?thesis
    by (simp add: handleVerificationDecision_def Let_def updateDoc_found truthy_def)
next
  case (Some t)
  show ?thesis
  proof (cases "map_of (users st) t")
    case None
    with assms Some show ?thesis
      by (simp add: handleVerificationDecision_def Let_def updateDoc_found updateDoc_missing
            truthy_def applyUpdate_absent)
  next
    case (Some ud)
    with assms \<open>target = Some t\<close> show ?thesis
      by (simp add: handleVerificationDecision_def Let_def updateDoc_found truthy_def)
  qed
qed

lemma decision_other_collections:
  "posts (db (handleVerificationDecision user now requestId decision target page st)) = posts st"
  "follows (db (handleVerificationDecision user now requestId decision target page st)) = follows st"
  "likes (db (handleVerificationDecision user now requestId decision target page st)) = likes st"
  by (simp_all add: handleVerificationDecision_def Let_def updateDoc_def
        split: option.splits sum.splits)

text \<open>
  C8, as amended. For an existing request and a signed-in administrator,
  \<open>handleVerificationDecision\<close> sets the request's status to the outcome, its review time to
  the clock reading and its reviewer to the administrator. It sets the verification flag
  of the target to true when the outcome is an approval and a non-empty target id is
  supplied, and otherwise leaves the users collection as it is. Approving once more leaves
  the status and the users collection unchanged and overwrites the review time and the
  reviewer with those of the later invocation.
\<close>

theorem C8_decision:
  assumes "map_of (verificationRequests st) requestId = Some rq"
    and "r = handleVerificationDecision (Some admin) now requestId decision target page st"
    and "r' = handleVerificationDecision (Some admin') now' requestId approved target page' (db r)"
  shows "map_of (verificationRequests (db r)) requestId
           = Some (rq\<lparr>status := decided decision, reviewedAt := Some now, reviewedBy := Some admin\<rparr>)
       \<and> (\<forall>t. decision = approved \<and> target = Some t \<and> t \<noteq> [] \<longrightarrow>
              users (db r) = applyUpdate t (\<lambda>d. d\<lparr>isVerified := True\<rparr>) (users st)
            \<and> map_of (users (db r)) t
                = map_option (\<lambda>d. d\<lparr>isVerified := True\<rparr>) (map_of (users st) t))
       \<and> (\<not> (decision = approved \<and> truthy target) \<longrightarrow> users (db r) = users st)
       \<and> (decision = approved \<longrightarrow>
              users (db r') = users (db r)
            \<and> map_of (verificationRequests (db r')) requestId
                = Some (rq\<lparr>status := decided approved, reviewedAt := Some now',
                          reviewedBy := Some admin'\<rparr>))"
proof -
  let ?f = "\<lambda>d. d\<lparr>isVerified := True\<rparr>"
  have rq1: "map_of (verificationRequests (db r)) requestId
           = Some (rq\<lparr>status := decided decision, reviewedAt := Some now, reviewedBy := Some admin\<rparr>)"
    unfolding assms(2) by (simp add: decision_requests [OF assms(1)] map_of_applyUpdate assms(1))
  have us: "users (db r)
         = (case target of
              None \<Rightarrow> users st
            | Some t \<Rightarrow> if decision = approved \<and> t \<noteq> [] then applyUpdate t ?f (users st)
                        else users st)"
    unfolding assms(2) by (rule decision_users [OF assms(1)])
  have a: "\<forall>t. decision = approved \<and> target = Some t \<and> t \<noteq> [] \<longrightarrow>
              users (db r) = applyUpdate t ?f (users st)
            \<and> map_of (users (db r)) t = map_option ?f (map_of (users st) t)"
    by (simp add: us map_of_applyUpdate)
  have b: "\<not> (decision = approved \<and> truthy target) \<longrightarrow> users (db r) = users st"
    by (auto simp: us truthy_def split: option.splits)
  have us': "users (db r')
         = (case target of
              None \<Rightarrow> users (db r)
            | Some t \<Rightarrow> if t \<noteq> [] then applyUpdate t ?f (users (db r)) else users (db r))"
    unfolding assms(3) using decision_users [OF rq1, of admin' now' approved target page']
    by (simp split: option.splits)
  have c1: "decision = approved \<longrightarrow> users (db r') = users (db r)"
  proof
    assume d: "decision = approved"
    show "users (db r') = users (db r)"
    proof (cases target)
      case None
      then show ?thesis by (simp add: us')
    next
      case (Some t)
      with d have "t \<noteq> [] \<Longrightarrow> users (db r) = applyUpdate t ?f (users st)"
        by (simp add: us)
      then have "t \<noteq> [] \<Longrightarrow> applyUpdate t ?f (users (db r)) = users (db r)"
        by (simp add: applyUpdate_idem)
      with Some show ?thesis
        by (simp add: us')
    qed
  qed
  have c2: "map_of (verificationRequests (db r')) requestId
                = Some (rq\<lparr>status := decided approved, reviewedAt := Some now',
                          reviewedBy := Some admin'\<rparr>)"
    unfolding assms(3) by (simp add: decision_requests [OF rq1] map_of_applyUpdate rq1)
  from rq1 a b c1 c2 show ?thesis
    by (intro conjI) simp_all
qed

text \<open>\<open>bob\<close>'s request is approved by \<open>alice\<close> and approved again, later, by \<open>carol\<close>.\<close>

theorem C8_decision_witness:
  "map_of (verificationRequests exampleStore) ''r1''
     = Some \<lparr> request_doc.userId = ''bob'', status = pending, reviewedAt = None, reviewedBy = None \<rparr>
   \<and> outcome exampleDecided
       = Completed (Some (Toast ''Verification approved'' ''Request has been approved''))
   \<and> map_of (verificationRequests (db exampleDecided)) ''r1''
       = Some \<lparr> request_doc.userId = ''bob'', status = decided approved,
                reviewedAt = Some 7000, reviewedBy = Some ''alice'' \<rparr>
   \<and> map_option isVerified (map_of (users exampleStore) ''bob'') = Some False
   \<and> map_option isVerified (map_of (users (db exampleDecided)) ''bob'') = Some True
   \<and> users (db exampleDecidedAgain) = users (db exampleDecided)
   \<and> map_of (verificationRequests (db exampleDecidedAgain)) ''r1''
       = Some \<lparr> request_doc.userId = ''bob'', status = decided approved,
                reviewedAt = Some 8000, reviewedBy = Some ''carol'' \<rparr>"
proof -
  have h: "map_of (verificationRequests exampleStore) ''r1''
     = Some \<lparr> request_doc.userId = ''bob'', status = pending, reviewedAt = None, reviewedBy = None \<rparr>"
    by code_simp
  have o: "outcome exampleDecided
       = Completed (Some (Toast ''Verification approved'' ''Request has been approved''))"
    by code_simp
  have v1: "map_option isVerified (map_of (users exampleStore) ''bob'') = Some False"
    by code_simp
  have v2: "map_option isVerified (map_of (users (db exampleDecided)) ''bob'') = Some True"
    by code_simp
  note c = C8_decision [OF h exampleDecided_def exampleDecidedAgain_def]
  have c1: "map_of (verificationRequests (db exampleDecided)) ''r1''
       = Some \<lparr> request_doc.userId = ''bob'', status = decided approved,
                reviewedAt = Some 7000, reviewedBy = Some ''alice'' \<rparr>"
    using c [THEN conjunct1] by simp
  have c2: "users (db exampleDecidedAgain) = users (db exampleDecided)
     \<and> map_of (verificationRequests (db exampleDecidedAgain)) ''r1''
       = Some \<lparr> request_doc.userId = ''bob'', status = decided approved,
                reviewedAt = Some 8000, reviewedBy = Some ''carol'' \<rparr>"
    using c [THEN conjunct2, THEN conjunct2, THEN conjunct2, THEN mp, OF refl] by simp
  show ?thesis
    by (intro conjI h o v1 v2 c1 c2 [THEN conjunct1] c2 [THEN conjunct2])
qed

text \<open>
  Approving again does not leave the same state: the second approval of \<open>r1\<close>, at time
  8000, replaces the review time 7000, so the stores after the first and after the second
  approval differ.
\<close>

theorem C8_reapplied_counterexample:
  "map_option status (map_of (verificationRequests (db exampleDecided)) ''r1'')
     = Some (decided approved)
   \<and> outcome exampleDecidedAgain
       = Completed (Some (Toast ''Verification approved'' ''Request has been approved''))
   \<and> map_option reviewedAt (map_of (verificationRequests (db exampleDecided)) ''r1'')
       = Some (Some 7000)
   \<and> map_option reviewedAt (map_of (verificationRequests (db exampleDecidedAgain)) ''r1'')
       = Some (Some 8000)
   \<and> db exampleDecidedAgain \<noteq> db exampleDecided"
  by code_simp

end
